theory Spec2Isabelle
  imports Main "HOL-Library.Word"
begin

section \<open>Data model of napi\_gmcurl.cpp\<close>

text \<open>
  The request id is a \<open>std::int32_t\<close>. Byte counts (\<open>curl_off_t\<close>, \<open>int64_t\<close>) and
  clock readings are integers; the one addition the source performs on byte counts, the
  resume offset added to the download counters, wraps around at 64 bits (\<open>int64_t\<close>
  below). A reading of \<open>std::chrono::steady_clock\<close> is its count of nanoseconds since
  the clock's epoch.
\<close>

type_synonym int32_t = "32 word"

text \<open>\<open>static std::map<std::int32_t, bool> mCancelRequestMap\<close>, always accessed under
  \<open>mCancel_mtx\<close>: every operation below is one critical section.\<close>

type_synonym registry = "int32_t \<rightharpoonup> bool"

record ProgressData =
  currentSize :: int
  totalSize :: int

record FormData =
  name :: string
  remoteFileName :: string
  filePath :: string
  contentType :: string
  dataStr :: string
  isDataArrayBuffer :: bool

text \<open>The fields of \<open>HttpRequestParams\<close> that the request life cycle below reads or
  writes. TLS settings, debug tracing, request headers, request body and performance timing
  only feed options of the transport and are left out. The field \<open>method_name\<close> is
  the source's \<open>std::string method\<close>.\<close>

record HttpRequestParams =
  method_name :: string
  downloadFilePath :: string
  uploadFilePath :: string
  resumeFromOffset :: int
  response :: string
  responseCode :: int
  responseHeaders :: string
  errorMsg :: string
  requestId :: int32_t
  formData :: "FormData list"
  lastProgress :: int
  lastTime :: int

text \<open>\<open>RequestCallbackData\<close>: \<open>tsfn\<close> is true when the thread-safe progress function
  has been created (the pointer is non-null).\<close>

record RequestCallbackData =
  params :: HttpRequestParams
  tsfn :: bool

text \<open>Values handed over by the JavaScript caller, as far as the binding inspects them.
  A number is modelled by its integral value.\<close>

datatype js_value =
  JsUndefined | JsNull | JsBoolean bool | JsNumber int | JsString string | JsObject | JsFunction

text \<open>\<open>napi_get_value_int32\<close>: fails on anything but a number; an integral number is
  reduced modulo \<open>2^32\<close>.\<close>

fun napi_get_value_int32 :: "js_value \<Rightarrow> int32_t option" where
  "napi_get_value_int32 (JsNumber n) = Some (word_of_int n)"
| "napi_get_value_int32 _ = None"

fun is_napi_number :: "js_value \<Rightarrow> bool" where
  "is_napi_number (JsNumber n) = True"
| "is_napi_number _ = False"

section \<open>Cancellation registry\<close>

text \<open>\<open>cancelRequest\<close>: acts only when called with exactly one argument of type number,
  and then only on an id that is already a key of the map.\<close>

definition cancelRequest :: "js_value list \<Rightarrow> registry \<Rightarrow> registry" where
  "cancelRequest args reg =
     (case args of
        [a] \<Rightarrow>
          (if is_napi_number a then
             (case napi_get_value_int32 a of
                Some rid \<Rightarrow> (if rid \<in> dom reg then reg(rid \<mapsto> True) else reg)
              | None \<Rightarrow> reg)
           else reg)
      | _ \<Rightarrow> reg)"

section \<open>Progress hook\<close>

text \<open>One invocation of the transfer-info hook: the clock reading taken at its start and
  the four counters passed by the transport.\<close>

record xfer =
  now :: int
  dltotal :: int
  dlnow :: int
  ultotal :: int
  ulnow :: int

text \<open>\<open>std::chrono::duration_cast<std::chrono::seconds>\<close> of a nanosecond duration
  truncates towards zero.\<close>

definition duration_cast_seconds :: "int \<Rightarrow> int" where
  "duration_cast_seconds d =
     (if 0 \<le> d then d div 1000000000 else - ((- d) div 1000000000))"

text \<open>The condition of the first \<open>if\<close> of \<open>progress_callback\<close> (upload progress).\<close>

definition upload_due :: "RequestCallbackData \<Rightarrow> xfer \<Rightarrow> bool" where
  "upload_due cb t \<longleftrightarrow>
     (uploadFilePath (params cb) \<noteq> [] \<or> formData (params cb) \<noteq> []) \<and>
     tsfn cb \<and> 0 < ultotal t \<and> lastProgress (params cb) \<noteq> ulnow t \<and>
     (1 \<le> duration_cast_seconds (now t - lastTime (params cb)) \<or> ulnow t = ultotal t)"

text \<open>The condition of the second \<open>if\<close> of \<open>progress_callback\<close> (download progress).\<close>

definition download_due :: "RequestCallbackData \<Rightarrow> xfer \<Rightarrow> bool" where
  "download_due cb t \<longleftrightarrow>
     downloadFilePath (params cb) \<noteq> [] \<and>
     tsfn cb \<and> 0 < dltotal t \<and> lastProgress (params cb) \<noteq> dlnow t \<and>
     (1 \<le> duration_cast_seconds (now t - lastTime (params cb)) \<or> dlnow t = dltotal t)"

text \<open>A value stored into an \<open>int64_t\<close>: two's complement wrap-around.\<close>

definition int64_t :: "int \<Rightarrow> int" where
  "int64_t x = (x + 9223372036854775808) mod 18446744073709551616 - 9223372036854775808"

text \<open>The two reporting blocks. Each returns the updated callback data and the samples it
  hands to \<open>napi_call_threadsafe_function\<close> (a non-blocking call: the sample is dropped by
  the queue when it is full, the state is updated all the same).\<close>

definition report_upload ::
  "RequestCallbackData \<Rightarrow> xfer \<Rightarrow> RequestCallbackData \<times> ProgressData list" where
  "report_upload cb t =
     (if upload_due cb t then
        (cb\<lparr>params := (params cb)\<lparr>lastTime := now t, lastProgress := ulnow t\<rparr>\<rparr>,
         [\<lparr>currentSize = ulnow t, totalSize = ultotal t\<rparr>])
      else (cb, []))"

definition report_download ::
  "RequestCallbackData \<Rightarrow> xfer \<Rightarrow> RequestCallbackData \<times> ProgressData list" where
  "report_download cb t =
     (if download_due cb t then
        (cb\<lparr>params := (params cb)\<lparr>lastTime := now t, lastProgress := dlnow t\<rparr>\<rparr>,
         [\<lparr>currentSize = int64_t (resumeFromOffset (params cb) + dlnow t),
           totalSize = int64_t (resumeFromOffset (params cb) + dltotal t)\<rparr>])
      else (cb, []))"

text \<open>The last block of \<open>progress_callback\<close>: the cancellation check. The result is the
  hook's return value (non-zero interrupts the transfer).\<close>

definition poll_cancel ::
  "RequestCallbackData \<Rightarrow> registry \<Rightarrow> int \<times> RequestCallbackData \<times> registry" where
  "poll_cancel cb reg =
     (if requestId (params cb) \<noteq> 0 then
        (case reg (requestId (params cb)) of
           Some True \<Rightarrow>
             (1, cb\<lparr>params := (params cb)\<lparr>errorMsg := ''Request canceled by user''\<rparr>\<rparr>,
              reg(requestId (params cb) := None))
         | _ \<Rightarrow> (0, cb, reg))
      else (0, cb, reg))"

text \<open>\<open>progress_callback\<close>: upload report, download report, cancellation check, in the
  order of the source. The result is the return value, the updated callback data, the
  updated registry and the samples handed to the caller's channel, in order.\<close>

definition progress_callback ::
  "RequestCallbackData \<Rightarrow> registry \<Rightarrow> xfer \<Rightarrow>
     int \<times> RequestCallbackData \<times> registry \<times> ProgressData list" where
  "progress_callback cb reg t =
     (case report_upload cb t of (cb1, out1) \<Rightarrow>
      case report_download cb1 t of (cb2, out2) \<Rightarrow>
      case poll_cancel cb2 reg of (rc, cb3, reg') \<Rightarrow>
        (rc, cb3, reg', out1 @ out2))"

section \<open>The transport, as the engine sees it\<close>

text \<open>
  libcurl is an external library. It is modelled by what the engine
  observes of one \<open>curl_easy_perform\<close>: a sequence of events while the transfer runs
  (invocations of the transfer-info hook on the worker thread, interleaved with calls of
  \<open>cancelRequest\<close> on the caller's thread, each atomic under the registry lock), the
  way the transfer ends by itself, and the final invocation of the hook that libcurl
  makes when a transfer is done.
\<close>

datatype event = Tick xfer | CancelCall "js_value list"

datatype transfer_end =
  HttpExchange int string string \<comment> \<open>status, raw header block, body bytes\<close>
| TransportFailure int \<comment> \<open>a \<open>CURLcode\<close> of a failed transfer\<close>

definition CURLE_OK :: int where "CURLE_OK = 0"
definition CURLE_HTTP_RETURNED_ERROR :: int where "CURLE_HTTP_RETURNED_ERROR = 22"
definition CURLE_ABORTED_BY_CALLBACK :: int where "CURLE_ABORTED_BY_CALLBACK = 42"

text \<open>The options that \<open>ExecuteRequest\<close> sets on the handle and that matter below.\<close>

datatype request_kind = CURLOPT_POST | CURLOPT_CUSTOMREQUEST string | CURLOPT_HTTPGET

datatype openmode = ios_out | ios_binary | ios_app

record curl_opts =
  NOPROGRESS :: bool
  kind :: request_kind
  UPLOAD :: bool
  RANGE :: "string option"
  FAILONERROR :: bool
  write_to_file :: bool

definition curl_easy_init :: curl_opts where
  "curl_easy_init =
     \<lparr>NOPROGRESS = True, kind = CURLOPT_HTTPGET, UPLOAD = False, RANGE = None,
      FAILONERROR = False, write_to_file = False\<rparr>"

text \<open>After the hook has interrupted the transfer no further tick reaches it; later calls
  of \<open>cancelRequest\<close> still run.\<close>

fun after_abort :: "event list \<Rightarrow> registry \<Rightarrow> registry" where
  "after_abort [] reg = reg"
| "after_abort (CancelCall a # es) reg = after_abort es (cancelRequest a reg)"
| "after_abort (Tick t # es) reg = after_abort es reg"

text \<open>The events of one transfer. \<open>wired\<close> says that the hook is installed
  (\<open>CURLOPT_NOPROGRESS\<close> is 0). The first component of the result tells whether the hook
  returned non-zero.\<close>

fun drive ::
  "bool \<Rightarrow> event list \<Rightarrow> RequestCallbackData \<Rightarrow> registry \<Rightarrow> ProgressData list \<Rightarrow>
     bool \<times> RequestCallbackData \<times> registry \<times> ProgressData list" where
  "drive wired [] cb reg out = (False, cb, reg, out)"
| "drive wired (CancelCall a # es) cb reg out = drive wired es cb (cancelRequest a reg) out"
| "drive wired (Tick t # es) cb reg out =
     (if wired then
        (case progress_callback cb reg t of (rc, cb', reg', new) \<Rightarrow>
           if rc \<noteq> 0 then (True, cb', after_abort es reg', out @ new)
           else drive wired es cb' reg' (out @ new))
      else drive wired es cb reg out)"

text \<open>The environment of one request: whether the handle and the files can be opened,
  what happens during the transfer, and libcurl's table of error descriptions.\<close>

record env =
  curl_init_ok :: bool
  upload_open_ok :: bool
  download_open_ok :: bool
  events :: "event list"
  fin :: transfer_end
  closing :: "xfer option"
  curl_easy_strerror :: "int \<Rightarrow> string"

text \<open>The code a transfer ends with by itself. With \<open>CURLOPT_FAILONERROR\<close> a status of
  400 or more fails the transfer with \<open>CURLE_HTTP_RETURNED_ERROR\<close>.\<close>

definition transfer_code :: "curl_opts \<Rightarrow> transfer_end \<Rightarrow> int" where
  "transfer_code opts ending =
     (case ending of
        TransportFailure c \<Rightarrow> c
      | HttpExchange st hs bd \<Rightarrow>
          if FAILONERROR opts \<and> 400 \<le> st then CURLE_HTTP_RETURNED_ERROR else CURLE_OK)"

text \<open>What the transfer leaves with the engine: the value of \<open>CURLINFO_RESPONSE_CODE\<close>,
  the header block passed to the header hook and the body passed to the write hook (none
  when the status fails the transfer).\<close>

definition delivered :: "curl_opts \<Rightarrow> transfer_end \<Rightarrow> int \<times> string \<times> string" where
  "delivered opts ending =
     (case ending of
        TransportFailure c \<Rightarrow> (0, [], [])
      | HttpExchange st hs bd \<Rightarrow>
          (st, hs, if FAILONERROR opts \<and> 400 \<le> st then [] else bd))"

text \<open>When a transfer is done and has not been interrupted by the hook, libcurl invokes
  the hook once more (the forced final progress update), if the hook is installed.
  \<open>closing\<close> is the tick of that invocation, \<open>None\<close> for a transfer that ends before
  libcurl gets there.\<close>

definition closing_call ::
  "bool \<Rightarrow> xfer option \<Rightarrow> RequestCallbackData \<Rightarrow> registry \<Rightarrow>
     int \<times> RequestCallbackData \<times> registry \<times> ProgressData list" where
  "closing_call wired c cb reg =
     (case c of
        Some t \<Rightarrow> (if wired then progress_callback cb reg t else (0, cb, reg, []))
      | None \<Rightarrow> (0, cb, reg, []))"

text \<open>Whether and when the hook returned non-zero.\<close>

datatype interruption = Uninterrupted | InFlight | AtClose

text \<open>What \<open>curl_easy_perform\<close> returns and leaves behind. A non-zero return of the hook
  while the transfer runs ends it with \<open>CURLE_ABORTED_BY_CALLBACK\<close>, and the final
  invocation is then not made. A non-zero return of the final invocation turns the code
  of a transfer that ended well into \<open>CURLE_ABORTED_BY_CALLBACK\<close> and leaves the code of a
  transfer that has already failed as it is.\<close>

record perform_result =
  res :: int
  response_code :: int
  header_block :: string
  body_bytes :: string
  cb_after :: RequestCallbackData
  reg_after :: registry
  samples :: "ProgressData list"
  stopped :: interruption

definition curl_easy_perform ::
  "curl_opts \<Rightarrow> env \<Rightarrow> RequestCallbackData \<Rightarrow> registry \<Rightarrow> perform_result" where
  "curl_easy_perform opts e cb reg =
     (case drive (\<not> NOPROGRESS opts) (events e) cb reg [] of
        (aborted, cb1, reg1, out1) \<Rightarrow>
          if aborted then
            \<lparr>res = CURLE_ABORTED_BY_CALLBACK, response_code = 0, header_block = [],
             body_bytes = [], cb_after = cb1, reg_after = reg1, samples = out1,
             stopped = InFlight\<rparr>
          else
            (case closing_call (\<not> NOPROGRESS opts) (closing e) cb1 reg1 of
               (rc, cb2, reg2, new) \<Rightarrow>
                 \<lparr>res = (if transfer_code opts (fin e) = CURLE_OK \<and> rc \<noteq> 0
                         then CURLE_ABORTED_BY_CALLBACK else transfer_code opts (fin e)),
                  response_code = fst (delivered opts (fin e)),
                  header_block = fst (snd (delivered opts (fin e))),
                  body_bytes = snd (snd (delivered opts (fin e))),
                  cb_after = cb2, reg_after = reg2, samples = out1 @ new,
                  stopped = (if rc \<noteq> 0 then AtClose else Uninterrupted)\<rparr>))"

section \<open>ExecuteRequest\<close>

text \<open>The result of the worker: the callback data and registry it leaves, the samples it
  reported, and, for inspection, the options in force when \<open>curl_easy_perform\<close> was
  called, its return code and the mode the download file was opened with (each
  \<open>None\<close> when that point was not reached).\<close>

record exec_result =
  cb_out :: RequestCallbackData
  reg_out :: registry
  reported :: "ProgressData list"
  session :: "curl_opts option"
  curl_res :: "int option"
  opened_with :: "openmode set option"

definition early_exit ::
  "RequestCallbackData \<Rightarrow> registry \<Rightarrow> string \<Rightarrow> int \<Rightarrow> exec_result" where
  "early_exit cb reg msg code =
     \<lparr>cb_out = cb\<lparr>params := (params cb)\<lparr>errorMsg := msg, responseCode := code\<rparr>\<rparr>,
      reg_out = reg, reported = [], session = None, curl_res = None, opened_with = None\<rparr>"

text \<open>Progress wiring: the hook is installed for a request with a non-zero id and for
  any file or form transfer.\<close>

definition set_progress :: "HttpRequestParams \<Rightarrow> curl_opts \<Rightarrow> curl_opts" where
  "set_progress p opts =
     (if requestId p \<noteq> 0 \<or> downloadFilePath p \<noteq> [] \<or> uploadFilePath p \<noteq> [] \<or>
         formData p \<noteq> []
      then opts\<lparr>NOPROGRESS := False\<rparr> else opts)"

text \<open>The HTTP verb: the chain of comparisons on the string, with its final
  \<open>else\<close>.\<close>

definition set_method :: "HttpRequestParams \<Rightarrow> curl_opts \<Rightarrow> curl_opts" where
  "set_method p opts =
     (if method_name p = ''POST'' then opts\<lparr>kind := CURLOPT_POST\<rparr>
      else if method_name p = ''PUT'' then opts\<lparr>kind := CURLOPT_CUSTOMREQUEST ''PUT''\<rparr>
      else if method_name p = ''DELETE'' then opts\<lparr>kind := CURLOPT_CUSTOMREQUEST ''DELETE''\<rparr>
      else opts\<lparr>kind := CURLOPT_HTTPGET\<rparr>)"

text \<open>\<open>range << resumeFromOffset << "-"\<close>: the decimal rendering of the offset.\<close>

fun dec_nat :: "nat \<Rightarrow> string" where
  "dec_nat n =
     (if n < 10 then [''0123456789'' ! n]
      else dec_nat (n div 10) @ [''0123456789'' ! (n mod 10)])"

definition dec_int :: "int \<Rightarrow> string" where
  "dec_int i = (if i < 0 then CHR ''-'' # dec_nat (nat (- i)) else dec_nat (nat i))"

definition download_mode :: "HttpRequestParams \<Rightarrow> openmode set" where
  "download_mode p =
     (if 0 < resumeFromOffset p then {ios_out, ios_binary, ios_app} else {ios_out, ios_binary})"

definition set_download :: "HttpRequestParams \<Rightarrow> curl_opts \<Rightarrow> curl_opts" where
  "set_download p opts =
     (let o1 = (if 0 < resumeFromOffset p
                then opts\<lparr>RANGE := Some (dec_int (resumeFromOffset p) @ ''-'')\<rparr> else opts)
      in o1\<lparr>write_to_file := True, FAILONERROR := True\<rparr>)"

text \<open>The two branches after \<open>curl_easy_perform\<close>.\<close>

definition capture_success :: "HttpRequestParams \<Rightarrow> perform_result \<Rightarrow> HttpRequestParams" where
  "capture_success p r =
     p\<lparr>responseCode := response_code r, responseHeaders := header_block r,
       response := (if downloadFilePath p \<noteq> [] then ''download finished'' else body_bytes r)\<rparr>"

definition capture_failure ::
  "(int \<Rightarrow> string) \<Rightarrow> HttpRequestParams \<Rightarrow> perform_result \<Rightarrow> HttpRequestParams" where
  "capture_failure strerror p r =
     (let p1 = p\<lparr>responseCode :=
                  (if res r = CURLE_HTTP_RETURNED_ERROR then response_code r else res r)\<rparr>
      in if errorMsg p1 = [] then p1\<lparr>errorMsg := strerror (res r)\<rparr> else p1)"

text \<open>The options in force when \<open>curl_easy_perform\<close> is called, set in the order of
  the source: progress wiring, HTTP verb, upload, download.\<close>

definition configure :: "HttpRequestParams \<Rightarrow> curl_opts" where
  "configure p =
     (let o1 = set_method p (set_progress p curl_easy_init);
          o2 = (if uploadFilePath p \<noteq> [] then o1\<lparr>UPLOAD := True\<rparr> else o1)
      in if downloadFilePath p \<noteq> [] then set_download p o2 else o2)"

text \<open>The part of \<open>ExecuteRequest\<close> after \<open>curl_easy_perform\<close> has returned.\<close>

definition capture :: "env \<Rightarrow> HttpRequestParams \<Rightarrow> perform_result \<Rightarrow> exec_result" where
  "capture e p r =
     \<lparr>cb_out = (cb_after r)\<lparr>params :=
         (if res r = CURLE_OK then capture_success (params (cb_after r)) r
          else capture_failure (curl_easy_strerror e) (params (cb_after r)) r)\<rparr>,
      reg_out = reg_after r, reported = samples r, session = Some (configure p),
      curl_res = Some (res r),
      opened_with = (if downloadFilePath p \<noteq> [] then Some (download_mode p) else None)\<rparr>"

text \<open>\<open>ExecuteRequest\<close>, with its three early returns: no handle, upload file not opened,
  download file not opened. The handler for \<open>std::exception\<close> (code 2000) has no
  counterpart: no operation of the model throws.\<close>

definition ExecuteRequest :: "env \<Rightarrow> RequestCallbackData \<Rightarrow> registry \<Rightarrow> exec_result" where
  "ExecuteRequest e cb reg =
     (if \<not> curl_init_ok e then early_exit cb reg ''Curl initialization failed'' 102
      else if uploadFilePath (params cb) \<noteq> [] \<and> \<not> upload_open_ok e
      then early_exit cb reg ''Failed to open file for upload'' 101
      else if downloadFilePath (params cb) \<noteq> [] \<and> \<not> download_open_ok e
      then early_exit cb reg ''Failed to open downloadFile'' 101
      else capture e (params cb) (curl_easy_perform (configure (params cb)) e cb reg))"

section \<open>Response assembly\<close>

text \<open>\<open>std::getline(stream, line, '\n')\<close> in a loop: the lines of the block; a final
  line without newline counts when it is not empty.\<close>

fun getlines :: "string \<Rightarrow> string \<Rightarrow> string list" where
  "getlines cur [] = (if cur = [] then [] else [cur])"
| "getlines cur (c # cs) =
     (if c = CHR 0x0A then cur # getlines [] cs else getlines (cur @ [c]) cs)"

text \<open>\<open>std::isspace\<close> in the C locale.\<close>

definition isspace :: "char \<Rightarrow> bool" where
  "isspace c \<longleftrightarrow> c \<in> {CHR '' '', CHR 0x09, CHR 0x0A, CHR 0x0B, CHR 0x0C, CHR 0x0D}"

definition trim :: "string \<Rightarrow> string" where
  "trim s = rev (dropWhile isspace (rev (dropWhile isspace s)))"

text \<open>The locals \<open>key\<close> and \<open>value\<close> of the loop of \<open>ParseHeaders\<close>, for a line
  with a colon: the text before the first colon and the text after it, trimmed.\<close>

definition header_name :: "string \<Rightarrow> string" where
  "header_name line = trim (takeWhile (\<lambda>c. c \<noteq> CHR '':'') line)"

definition header_value :: "string \<Rightarrow> string" where
  "header_value line = trim (drop 1 (dropWhile (\<lambda>c. c \<noteq> CHR '':'') line))"

text \<open>The body of the loop: a line without colon is skipped; otherwise the assignment
  overwrites an earlier value of the key.\<close>

definition parse_line :: "(string \<rightharpoonup> string) \<Rightarrow> string \<Rightarrow> (string \<rightharpoonup> string)" where
  "parse_line hs line =
     (if CHR '':'' \<in> set line then hs(header_name line \<mapsto> header_value line) else hs)"

definition ParseHeaders :: "string \<Rightarrow> (string \<rightharpoonup> string)" where
  "ParseHeaders headerStr = foldl parse_line Map.empty (getlines [] headerStr)"

text \<open>\<open>s.find(pat) != std::string::npos\<close>.\<close>

fun starts_with :: "string \<Rightarrow> string \<Rightarrow> bool" where
  "starts_with [] s = True"
| "starts_with (p # ps) [] = False"
| "starts_with (p # ps) (c # cs) = (p = c \<and> starts_with ps cs)"

fun found_in :: "string \<Rightarrow> string \<Rightarrow> bool" where
  "found_in pat [] = (pat = [])"
| "found_in pat (c # cs) = (starts_with pat (c # cs) \<or> found_in pat cs)"

datatype body = Text string | ArrayBuffer string

record HttpResponse =
  resp_code :: int
  resp_headers :: "string \<rightharpoonup> string"
  resp_body :: body

datatype promise = Resolved HttpResponse | Rejected int string

definition napi_ok :: int where "napi_ok = 0"

text \<open>\<open>ResponseErrorCB\<close>: the rejection carries \<open>responseCode\<close> and \<open>errorMsg\<close>.\<close>

definition ResponseErrorCB :: "HttpRequestParams \<Rightarrow> promise" where
  "ResponseErrorCB p = Rejected (responseCode p) (errorMsg p)"

text \<open>The body of a resolved promise, chosen from the parsed \<open>Content-Type\<close> entry.\<close>

definition response_body :: "HttpRequestParams \<Rightarrow> (string \<rightharpoonup> string) \<Rightarrow> body" where
  "response_body p headersMap =
     (let ct = (case headersMap ''Content-Type'' of Some v \<Rightarrow> v | None \<Rightarrow> [])
      in if (found_in ''application/octet-stream'' ct \<or> found_in ''image/'' ct) \<and>
            downloadFilePath p = []
         then ArrayBuffer (response p) else Text (response p))"

text \<open>The registry clean-up at the end of \<open>CompleteCB\<close>.\<close>

definition clear_request :: "HttpRequestParams \<Rightarrow> registry \<Rightarrow> registry" where
  "clear_request p reg =
     (if requestId p \<noteq> 0 then
        (if requestId p \<in> dom reg then reg(requestId p := None) else reg)
      else reg)"

text \<open>\<open>CompleteCB\<close>, given the status of the asynchronous work: the promise's outcome and
  the registry after clean-up.\<close>

definition CompleteCB ::
  "int \<Rightarrow> RequestCallbackData \<Rightarrow> registry \<Rightarrow> promise \<times> registry" where
  "CompleteCB status cb reg =
     (let p = params cb;
          outcome =
            (if status \<noteq> napi_ok then ResponseErrorCB (p\<lparr>responseCode := status + 1000\<rparr>)
             else if errorMsg p \<noteq> [] then ResponseErrorCB p
             else
               let headersMap = ParseHeaders (responseHeaders p)
               in Resolved \<lparr>resp_code = responseCode p, resp_headers = headersMap,
                            resp_body = response_body p headersMap\<rparr>)
      in (outcome, clear_request p reg))"

section \<open>Request\<close>

text \<open>The properties of the options object that \<open>Request\<close> reads into the modelled fields
  (the argument is an object, as the binding expects). A property typed as string or list
  is \<open>None\<close> when the object does not have it; the form fields are given as converted by
  \<open>convertFormData\<close>; \<open>requestID\<close> is the value found (\<open>JsUndefined\<close> when missing).\<close>

record HttpRequestOptions =
  opt_method :: "string option"
  opt_multiFormDataList :: "FormData list option"
  opt_requestID :: js_value
  opt_downloadFilePath :: "string option"
  opt_uploadFilePath :: "string option"
  opt_onProgress :: bool

text \<open>The files for which the existence test of \<open>Request\<close> succeeds
  (\<open>std::ifstream file(path); file.good()\<close>, commented in the source as the test whether
  the file exists), with the size \<open>getFileSize\<close> returns.\<close>

type_synonym filesystem = "string \<rightharpoonup> int"

text \<open>\<open>new RequestCallbackData()\<close>: value-initialised.\<close>

definition new_RequestCallbackData :: RequestCallbackData where
  "new_RequestCallbackData =
     \<lparr>params = \<lparr>method_name = [], downloadFilePath = [], uploadFilePath = [], resumeFromOffset = 0,
                response = [], responseCode = 0, responseHeaders = [], errorMsg = [],
                requestId = 0, formData = [], lastProgress = 0, lastTime = 0\<rparr>,
      tsfn = False\<rparr>"

text \<open>\<open>napi_get_value_string_utf8\<close> into a buffer of the given size copies at most
  \<open>bufsize - 1\<close> bytes; \<open>std::string(const char*)\<close> reads the buffer up to its first NUL.\<close>

definition napi_get_value_string_utf8 :: "nat \<Rightarrow> string \<Rightarrow> string" where
  "napi_get_value_string_utf8 bufsize s = take (bufsize - 1) s"

definition c_string :: "string \<Rightarrow> string" where
  "c_string buf = takeWhile (\<lambda>c. c \<noteq> CHR 0x00) buf"

text \<open>The parsing steps of \<open>Request\<close>, in the order of the source. The verb is read
  through \<open>char method[32]\<close> and the paths through buffers of 1024 bytes; the verb and
  the download path are then taken as C strings, the upload path with its length.\<close>

definition parse_method :: "HttpRequestOptions \<Rightarrow> HttpRequestParams \<Rightarrow> HttpRequestParams" where
  "parse_method opts p =
     p\<lparr>method_name :=
         (case opt_method opts of
            Some m \<Rightarrow> c_string (napi_get_value_string_utf8 32 m)
          | None \<Rightarrow> ''GET'')\<rparr>"

definition parse_formdata :: "HttpRequestOptions \<Rightarrow> HttpRequestParams \<Rightarrow> HttpRequestParams" where
  "parse_formdata opts p =
     (case opt_multiFormDataList opts of
        Some items \<Rightarrow> (if method_name p = ''POST'' then p\<lparr>formData := formData p @ items\<rparr> else p)
      | None \<Rightarrow> p)"

definition parse_requestID ::
  "HttpRequestOptions \<Rightarrow> HttpRequestParams \<Rightarrow> registry \<Rightarrow> HttpRequestParams \<times> registry" where
  "parse_requestID opts p reg =
     (case napi_get_value_int32 (opt_requestID opts) of
        Some rid \<Rightarrow> (p\<lparr>requestId := rid\<rparr>, reg(rid \<mapsto> False))
      | None \<Rightarrow> (p\<lparr>requestId := 0\<rparr>, reg))"

definition parse_download ::
  "HttpRequestOptions \<Rightarrow> filesystem \<Rightarrow> HttpRequestParams \<Rightarrow> HttpRequestParams" where
  "parse_download opts fs p =
     (case opt_downloadFilePath opts of
        Some given \<Rightarrow>
          (let path = c_string (napi_get_value_string_utf8 1024 given);
               p1 = p\<lparr>downloadFilePath := path\<rparr>
           in if path \<noteq> [] then
                (case fs path of Some sz \<Rightarrow> p1\<lparr>resumeFromOffset := sz\<rparr> | None \<Rightarrow> p1)
              else p1)
      | None \<Rightarrow> p)"

definition parse_upload :: "HttpRequestOptions \<Rightarrow> HttpRequestParams \<Rightarrow> HttpRequestParams" where
  "parse_upload opts p =
     (case opt_uploadFilePath opts of
        Some given \<Rightarrow> p\<lparr>uploadFilePath := napi_get_value_string_utf8 1024 given\<rparr>
      | None \<Rightarrow> p)"

definition Request ::
  "HttpRequestOptions \<Rightarrow> filesystem \<Rightarrow> registry \<Rightarrow> RequestCallbackData \<times> registry" where
  "Request opts fs reg =
     (let p1 = parse_formdata opts (parse_method opts (params new_RequestCallbackData))
      in case parse_requestID opts p1 reg of
           (p2, reg') \<Rightarrow>
             (\<lparr>params = parse_upload opts (parse_download opts fs p2),
               tsfn = opt_onProgress opts\<rparr>, reg'))"

section \<open>One request from call to promise\<close>

text \<open>\<open>Request\<close> queues the work; the worker runs \<open>ExecuteRequest\<close>; \<open>CompleteCB\<close> runs
  with status \<open>napi_ok\<close> (the work is never cancelled through N-API). The result is the
  promise's outcome, the registry afterwards and the samples handed to the caller.\<close>

definition request_lifecycle ::
  "HttpRequestOptions \<Rightarrow> filesystem \<Rightarrow> env \<Rightarrow> registry \<Rightarrow>
     promise \<times> registry \<times> ProgressData list" where
  "request_lifecycle opts fs e reg =
     (case Request opts fs reg of
        (cb, reg1) \<Rightarrow>
          let r = ExecuteRequest e cb reg1
          in case CompleteCB napi_ok (cb_out r) (reg_out r) of
               (outcome, reg2) \<Rightarrow> (outcome, reg2, reported r))"

section \<open>Concrete requests\<close>

text \<open>An environment in which the handle and the files open, with the given events and
  end of transfer, and no final invocation of the hook.\<close>

definition serving :: "event list \<Rightarrow> transfer_end \<Rightarrow> env" where
  "serving evs ending =
     \<lparr>curl_init_ok = True, upload_open_ok = True, download_open_ok = True, events = evs,
      fin = ending, closing = None, curl_easy_strerror = (\<lambda>c. ''transfer failed'')\<rparr>"

text \<open>A header block as the header hook collects it: every line with its line feed; and
  the same with a carriage return before each line feed.\<close>

definition header_block_of :: "string list \<Rightarrow> string" where
  "header_block_of ls = concat (map (\<lambda>l. l @ [CHR 0x0A]) ls)"

definition http_lines :: "string list \<Rightarrow> string" where
  "http_lines ls = header_block_of (map (\<lambda>l. l @ [CHR 0x0D]) ls)"

text \<open>The options of a plain GET without any optional property.\<close>

definition plain_get :: HttpRequestOptions where
  "plain_get =
     \<lparr>opt_method = None, opt_multiFormDataList = None, opt_requestID = JsUndefined,
      opt_downloadFilePath = None, opt_uploadFilePath = None, opt_onProgress = False\<rparr>"

section \<open>Basic facts\<close>

lemma elapsed_one_second: "1 \<le> duration_cast_seconds d \<longleftrightarrow> 1000000000 \<le> d"
  unfolding duration_cast_seconds_def by (cases "0 \<le> d") (simp_all, linarith)

lemma cancelRequest_dom: "dom (cancelRequest a reg) = dom reg"
  by (auto simp: cancelRequest_def split: list.splits option.splits if_splits)

lemma cancelRequest_absent: "reg i = None \<Longrightarrow> cancelRequest a reg i = None"
  using cancelRequest_dom [of a reg] by (metis domIff)

lemma cancelRequest_present: "reg i \<noteq> None \<Longrightarrow> cancelRequest a reg i \<noteq> None"
  using cancelRequest_dom [of a reg] by (metis domIff)

lemma cancelRequest_keeps_True: "reg i = Some True \<Longrightarrow> cancelRequest a reg i = Some True"
  by (auto simp: cancelRequest_def split: list.splits option.splits if_splits)

lemma cancelRequest_unknown: "reg (word_of_int n) = None \<Longrightarrow> cancelRequest [JsNumber n] reg = reg"
  by (auto simp: cancelRequest_def dom_def)

lemma cancelRequest_known:
  "reg (word_of_int n) = Some b \<Longrightarrow> cancelRequest [JsNumber n] reg = reg(word_of_int n \<mapsto> True)"
  by (auto simp: cancelRequest_def dom_def)

lemma after_abort_absent: "reg i = None \<Longrightarrow> after_abort es reg i = None"
  by (induction es reg rule: after_abort.induct) (simp_all add: cancelRequest_absent)

lemma report_upload_fields:
  "report_upload cb t = (cb', new) \<Longrightarrow>
     requestId (params cb') = requestId (params cb) \<and>
     errorMsg (params cb') = errorMsg (params cb) \<and>
     downloadFilePath (params cb') = downloadFilePath (params cb) \<and>
     uploadFilePath (params cb') = uploadFilePath (params cb) \<and>
     formData (params cb') = formData (params cb) \<and>
     resumeFromOffset (params cb') = resumeFromOffset (params cb) \<and>
     response (params cb') = response (params cb) \<and>
     responseCode (params cb') = responseCode (params cb) \<and>
     responseHeaders (params cb') = responseHeaders (params cb) \<and>
     tsfn cb' = tsfn cb"
  by (auto simp: report_upload_def split: if_splits)

lemma report_download_fields:
  "report_download cb t = (cb', new) \<Longrightarrow>
     requestId (params cb') = requestId (params cb) \<and>
     errorMsg (params cb') = errorMsg (params cb) \<and>
     downloadFilePath (params cb') = downloadFilePath (params cb) \<and>
     uploadFilePath (params cb') = uploadFilePath (params cb) \<and>
     formData (params cb') = formData (params cb) \<and>
     resumeFromOffset (params cb') = resumeFromOffset (params cb) \<and>
     response (params cb') = response (params cb) \<and>
     responseCode (params cb') = responseCode (params cb) \<and>
     responseHeaders (params cb') = responseHeaders (params cb) \<and>
     tsfn cb' = tsfn cb"
  by (auto simp: report_download_def split: if_splits)

lemma poll_cancel_cases:
  "poll_cancel cb reg =
     (if requestId (params cb) \<noteq> 0 \<and> reg (requestId (params cb)) = Some True
      then (1, cb\<lparr>params := (params cb)\<lparr>errorMsg := ''Request canceled by user''\<rparr>\<rparr>,
            reg(requestId (params cb) := None))
      else (0, cb, reg))"
  by (auto simp: poll_cancel_def split: option.splits bool.splits)

lemma progress_callback_abort:
  assumes "progress_callback cb reg t = (rc, cb', reg', new)" and "rc \<noteq> 0"
  shows "requestId (params cb) \<noteq> 0 \<and> reg (requestId (params cb)) = Some True \<and>
         reg' = reg(requestId (params cb) := None) \<and>
         errorMsg (params cb') = ''Request canceled by user'' \<and>
         responseCode (params cb') = responseCode (params cb)"
proof -
  obtain cb1 out1 where u: "report_upload cb t = (cb1, out1)" by (cases "report_upload cb t")
  obtain cb2 out2 where d: "report_download cb1 t = (cb2, out2)" by (cases "report_download cb1 t")
  from report_upload_fields [OF u] report_download_fields [OF d]
  have same: "requestId (params cb2) = requestId (params cb)"
    "responseCode (params cb2) = responseCode (params cb)" by simp_all
  from assms u d show ?thesis
    by (auto simp: progress_callback_def poll_cancel_cases same split: if_splits)
qed

lemma progress_callback_continue:
  assumes "progress_callback cb reg t = (0, cb', reg', new)"
  shows "reg' = reg \<and> \<not> (requestId (params cb) \<noteq> 0 \<and> reg (requestId (params cb)) = Some True) \<and>
     requestId (params cb') = requestId (params cb) \<and>
     errorMsg (params cb') = errorMsg (params cb) \<and>
     downloadFilePath (params cb') = downloadFilePath (params cb) \<and>
     uploadFilePath (params cb') = uploadFilePath (params cb) \<and>
     formData (params cb') = formData (params cb) \<and>
     resumeFromOffset (params cb') = resumeFromOffset (params cb) \<and>
     response (params cb') = response (params cb) \<and>
     responseCode (params cb') = responseCode (params cb) \<and>
     responseHeaders (params cb') = responseHeaders (params cb) \<and>
     tsfn cb' = tsfn cb"
proof -
  obtain cb1 out1 where u: "report_upload cb t = (cb1, out1)" by (cases "report_upload cb t")
  obtain cb2 out2 where d: "report_download cb1 t = (cb2, out2)" by (cases "report_download cb1 t")
  from assms u d have "poll_cancel cb2 reg = (0, cb', reg')"
    by (auto simp: progress_callback_def split: prod.splits)
  then have "cb' = cb2 \<and> reg' = reg \<and>
     \<not> (requestId (params cb2) \<noteq> 0 \<and> reg (requestId (params cb2)) = Some True)"
    by (auto simp: poll_cancel_cases split: if_splits)
  with report_upload_fields [OF u] report_download_fields [OF d] show ?thesis by simp
qed

lemma progress_callback_flagged:
  assumes "requestId (params cb) \<noteq> 0" and "reg (requestId (params cb)) = Some True"
  shows "\<exists>cb' new. progress_callback cb reg t = (1, cb', reg(requestId (params cb) := None), new) \<and>
           errorMsg (params cb') = ''Request canceled by user''"
proof -
  obtain cb1 out1 where u: "report_upload cb t = (cb1, out1)" by (cases "report_upload cb t")
  obtain cb2 out2 where d: "report_download cb1 t = (cb2, out2)" by (cases "report_download cb1 t")
  from report_upload_fields [OF u] report_download_fields [OF d]
  have same: "requestId (params cb2) = requestId (params cb)" by simp
  from assms u d show ?thesis
    by (simp add: progress_callback_def poll_cancel_cases same)
qed

lemma progress_callback_fields:
  assumes "progress_callback cb reg t = (rc, cb', reg', new)"
  shows "requestId (params cb') = requestId (params cb) \<and>
     downloadFilePath (params cb') = downloadFilePath (params cb) \<and>
     uploadFilePath (params cb') = uploadFilePath (params cb) \<and>
     formData (params cb') = formData (params cb) \<and>
     resumeFromOffset (params cb') = resumeFromOffset (params cb) \<and>
     response (params cb') = response (params cb) \<and>
     responseCode (params cb') = responseCode (params cb) \<and>
     responseHeaders (params cb') = responseHeaders (params cb) \<and>
     tsfn cb' = tsfn cb"
proof -
  obtain cb1 out1 where u: "report_upload cb t = (cb1, out1)" by (cases "report_upload cb t")
  obtain cb2 out2 where d: "report_download cb1 t = (cb2, out2)" by (cases "report_download cb1 t")
  from assms u d have "fst (snd (poll_cancel cb2 reg)) = cb'"
    by (auto simp: progress_callback_def split: prod.splits)
  then have "cb' = cb2 \<or> cb' = cb2\<lparr>params := (params cb2)\<lparr>errorMsg := ''Request canceled by user''\<rparr>\<rparr>"
    by (auto simp: poll_cancel_cases split: if_splits)
  with report_upload_fields [OF u] report_download_fields [OF d] show ?thesis by auto
qed

lemma drive_fields:
  "drive w es cb reg out = (ab, cb', reg', out') \<Longrightarrow>
     requestId (params cb') = requestId (params cb) \<and>
     downloadFilePath (params cb') = downloadFilePath (params cb) \<and>
     uploadFilePath (params cb') = uploadFilePath (params cb) \<and>
     formData (params cb') = formData (params cb) \<and>
     resumeFromOffset (params cb') = resumeFromOffset (params cb) \<and>
     response (params cb') = response (params cb) \<and>
     responseCode (params cb') = responseCode (params cb) \<and>
     responseHeaders (params cb') = responseHeaders (params cb) \<and>
     tsfn cb' = tsfn cb"
proof (induction w es cb reg out rule: drive.induct)
  case (1 wired cb reg out)
  then show ?case by simp
next
  case (2 wired a es cb reg out)
  then show ?case by simp
next
  case (3 wired t es cb reg out)
  show ?case
  proof (cases wired)
    case False
    with 3 show ?thesis by simp
  next
    case True
    obtain rc cb1 reg1 new where pc: "progress_callback cb reg t = (rc, cb1, reg1, new)"
      by (cases "progress_callback cb reg t")
    note f = progress_callback_fields [OF pc]
    show ?thesis
    proof (cases "rc = 0")
      case True
      with 3(1) [OF \<open>wired\<close> pc [symmetric] refl refl] 3(3) \<open>wired\<close> pc f show ?thesis by simp
    next
      case False
      with 3(3) \<open>wired\<close> pc f show ?thesis by auto
    qed
  qed
qed

lemma drive_outcome:
  "drive w es cb reg out = (ab, cb', reg', out') \<Longrightarrow>
     (if ab then errorMsg (params cb') = ''Request canceled by user'' \<and>
                 requestId (params cb) \<noteq> 0 \<and> reg' (requestId (params cb)) = None
      else errorMsg (params cb') = errorMsg (params cb))"
proof (induction w es cb reg out rule: drive.induct)
  case (1 wired cb reg out)
  then show ?case by auto
next
  case (2 wired a es cb reg out)
  then show ?case by simp
next
  case (3 wired t es cb reg out)
  show ?case
  proof (cases wired)
    case False
    with 3 show ?thesis by simp
  next
    case True
    obtain rc cb1 reg1 new where pc: "progress_callback cb reg t = (rc, cb1, reg1, new)"
      by (cases "progress_callback cb reg t")
    note f = progress_callback_fields [OF pc]
    show ?thesis
    proof (cases "rc = 0")
      case True
      from pc True have c: "progress_callback cb reg t = (0, cb1, reg1, new)" by simp
      from 3(1) [OF \<open>wired\<close> pc [symmetric] refl refl] 3(3) \<open>wired\<close> pc True
      have "if ab then errorMsg (params cb') = ''Request canceled by user'' \<and>
                 requestId (params cb1) \<noteq> 0 \<and> reg' (requestId (params cb1)) = None
            else errorMsg (params cb') = errorMsg (params cb1)" by simp
      with progress_callback_continue [OF c] show ?thesis by (cases ab) simp_all
    next
      case False
      from progress_callback_abort [OF pc False]
      have a: "requestId (params cb) \<noteq> 0" "reg1 (requestId (params cb)) = None"
        "errorMsg (params cb1) = ''Request canceled by user''" by simp_all
      from 3(3) \<open>wired\<close> pc False
      have "ab" "cb' = cb1" "reg' = after_abort es reg1" by auto
      with a after_abort_absent [of reg1 "requestId (params cb)" es] show ?thesis by simp
    qed
  qed
qed

lemma drive_flagged:
  "requestId (params cb) \<noteq> 0 \<Longrightarrow> reg (requestId (params cb)) = Some True \<Longrightarrow>
   Tick t \<in> set es \<Longrightarrow> fst (drive True es cb reg out)"
proof (induction es arbitrary: reg)
  case Nil
  then show ?case by simp
next
  case (Cons ev es)
  show ?case
  proof (cases ev)
    case (Tick t')
    from progress_callback_flagged [of cb reg t'] Cons.prems(1,2)
    show ?thesis by (auto simp: Tick)
  next
    case (CancelCall a)
    with Cons.prems have "Tick t \<in> set es" by auto
    from Cons.IH [of "cancelRequest a reg"] Cons.prems(1) this
      cancelRequest_keeps_True [of reg "requestId (params cb)" a] Cons.prems(2)
    show ?thesis by (simp add: CancelCall)
  qed
qed

lemma drive_cancelled:
  "requestId (params cb) = word_of_int n \<Longrightarrow> requestId (params cb) \<noteq> 0 \<Longrightarrow>
   reg (word_of_int n) \<noteq> None \<Longrightarrow> Tick t \<in> set post \<Longrightarrow>
   fst (drive True (pre @ CancelCall [JsNumber n] # post) cb reg out)"
proof (induction pre arbitrary: cb reg out)
  case Nil
  from Nil.prems(3) obtain b where "reg (word_of_int n) = Some b" by auto
  then have "cancelRequest [JsNumber n] reg (requestId (params cb)) = Some True"
    by (simp add: cancelRequest_known Nil.prems(1))
  from drive_flagged [of cb "cancelRequest [JsNumber n] reg" t post out] Nil.prems(2,4) this
  show ?case by simp
next
  case (Cons ev pre)
  show ?case
  proof (cases ev)
    case (CancelCall a)
    from Cons.IH [of cb "cancelRequest a reg" out] Cons.prems(1,2,4)
      cancelRequest_present [of reg "word_of_int n" a] Cons.prems(3)
    show ?thesis by (simp add: CancelCall)
  next
    case (Tick t')
    obtain rc cb1 reg1 new where pc: "progress_callback cb reg t' = (rc, cb1, reg1, new)"
      by (cases "progress_callback cb reg t'")
    show ?thesis
    proof (cases "rc = 0")
      case False
      with pc show ?thesis by (simp add: Tick)
    next
      case True
      with pc have c: "progress_callback cb reg t' = (0, cb1, reg1, new)" by simp
      from progress_callback_continue [OF c] Cons.prems
      have "requestId (params cb1) = word_of_int n" "requestId (params cb1) \<noteq> 0"
        "reg1 (word_of_int n) \<noteq> None" by simp_all
      from Cons.IH [of cb1 reg1 "out @ new"] this Cons.prems(4) pc True
      show ?thesis by (simp add: Tick)
    qed
  qed
qed

lemma parse_upload_simps:
  "requestId (parse_upload opts p) = requestId p"
  "errorMsg (parse_upload opts p) = errorMsg p"
  "downloadFilePath (parse_upload opts p) = downloadFilePath p"
  "resumeFromOffset (parse_upload opts p) = resumeFromOffset p"
  "formData (parse_upload opts p) = formData p"
  "method_name (parse_upload opts p) = method_name p"
  "lastProgress (parse_upload opts p) = lastProgress p"
  "lastTime (parse_upload opts p) = lastTime p"
  "uploadFilePath (parse_upload opts p) =
     (case opt_uploadFilePath opts of
        Some given \<Rightarrow> napi_get_value_string_utf8 1024 given
      | None \<Rightarrow> uploadFilePath p)"
  by (simp_all add: parse_upload_def split: option.splits)

lemma parse_download_simps:
  "requestId (parse_download opts fs p) = requestId p"
  "errorMsg (parse_download opts fs p) = errorMsg p"
  "uploadFilePath (parse_download opts fs p) = uploadFilePath p"
  "formData (parse_download opts fs p) = formData p"
  "method_name (parse_download opts fs p) = method_name p"
  "lastProgress (parse_download opts fs p) = lastProgress p"
  "lastTime (parse_download opts fs p) = lastTime p"
  "downloadFilePath (parse_download opts fs p) =
     (case opt_downloadFilePath opts of
        Some given \<Rightarrow> c_string (napi_get_value_string_utf8 1024 given)
      | None \<Rightarrow> downloadFilePath p)"
  by (simp_all add: parse_download_def Let_def split: option.splits)

lemma parse_download_offset:
  "opt_downloadFilePath opts = Some given \<Longrightarrow>
   c_string (napi_get_value_string_utf8 1024 given) = path \<Longrightarrow>
   path \<noteq> [] \<Longrightarrow> fs path = Some sz \<Longrightarrow>
     resumeFromOffset (parse_download opts fs p) = sz"
  by (simp add: parse_download_def Let_def)

lemma parse_requestID_simps:
  "requestId (fst (parse_requestID opts p reg)) =
     (case napi_get_value_int32 (opt_requestID opts) of Some r \<Rightarrow> r | None \<Rightarrow> 0)"
  "snd (parse_requestID opts p reg) =
     (case napi_get_value_int32 (opt_requestID opts) of Some r \<Rightarrow> reg(r \<mapsto> False) | None \<Rightarrow> reg)"
  "errorMsg (fst (parse_requestID opts p reg)) = errorMsg p"
  "uploadFilePath (fst (parse_requestID opts p reg)) = uploadFilePath p"
  "downloadFilePath (fst (parse_requestID opts p reg)) = downloadFilePath p"
  "formData (fst (parse_requestID opts p reg)) = formData p"
  "method_name (fst (parse_requestID opts p reg)) = method_name p"
  "lastProgress (fst (parse_requestID opts p reg)) = lastProgress p"
  "lastTime (fst (parse_requestID opts p reg)) = lastTime p"
  by (simp_all add: parse_requestID_def split: option.splits)

lemma parse_formdata_simps:
  "errorMsg (parse_formdata opts p) = errorMsg p"
  "uploadFilePath (parse_formdata opts p) = uploadFilePath p"
  "downloadFilePath (parse_formdata opts p) = downloadFilePath p"
  "method_name (parse_formdata opts p) = method_name p"
  "lastProgress (parse_formdata opts p) = lastProgress p"
  "lastTime (parse_formdata opts p) = lastTime p"
  by (simp_all add: parse_formdata_def split: option.splits)

lemma parse_method_simps:
  "errorMsg (parse_method opts p) = errorMsg p"
  "uploadFilePath (parse_method opts p) = uploadFilePath p"
  "downloadFilePath (parse_method opts p) = downloadFilePath p"
  "formData (parse_method opts p) = formData p"
  "lastProgress (parse_method opts p) = lastProgress p"
  "lastTime (parse_method opts p) = lastTime p"
  "method_name (parse_method opts p) =
     (case opt_method opts of
        Some m \<Rightarrow> c_string (napi_get_value_string_utf8 32 m)
      | None \<Rightarrow> ''GET'')"
  by (simp_all add: parse_method_def)

lemma Request_unfold:
  "Request opts fs reg =
     (\<lparr>params = parse_upload opts (parse_download opts fs
         (fst (parse_requestID opts
            (parse_formdata opts (parse_method opts (params new_RequestCallbackData))) reg))),
       tsfn = opt_onProgress opts\<rparr>,
      snd (parse_requestID opts
            (parse_formdata opts (parse_method opts (params new_RequestCallbackData))) reg))"
  by (simp add: Request_def Let_def split: prod.splits)

lemma Request_result:
  "Request opts fs reg = (cb, reg1) \<Longrightarrow>
     requestId (params cb) = (case napi_get_value_int32 (opt_requestID opts) of Some r \<Rightarrow> r | None \<Rightarrow> 0) \<and>
     reg1 = (case napi_get_value_int32 (opt_requestID opts) of Some r \<Rightarrow> reg(r \<mapsto> False) | None \<Rightarrow> reg) \<and>
     downloadFilePath (params cb) =
       (case opt_downloadFilePath opts of
          Some p \<Rightarrow> c_string (napi_get_value_string_utf8 1024 p) | None \<Rightarrow> []) \<and>
     uploadFilePath (params cb) =
       (case opt_uploadFilePath opts of
          Some p \<Rightarrow> napi_get_value_string_utf8 1024 p | None \<Rightarrow> []) \<and>
     errorMsg (params cb) = [] \<and> tsfn cb = opt_onProgress opts \<and>
     lastProgress (params cb) = 0 \<and> lastTime (params cb) = 0"
  unfolding Request_unfold
  by (auto simp: parse_upload_simps parse_download_simps parse_requestID_simps
      parse_formdata_simps parse_method_simps new_RequestCallbackData_def
      split: option.splits)

lemma NOPROGRESS_configure:
  "NOPROGRESS (configure p) \<longleftrightarrow>
     \<not> (requestId p \<noteq> 0 \<or> downloadFilePath p \<noteq> [] \<or> uploadFilePath p \<noteq> [] \<or> formData p \<noteq> [])"
  by (simp add: configure_def set_method_def set_progress_def set_download_def
      curl_easy_init_def Let_def)

lemma FAILONERROR_configure: "FAILONERROR (configure p) \<longleftrightarrow> downloadFilePath p \<noteq> []"
  by (simp add: configure_def set_method_def set_progress_def set_download_def
      curl_easy_init_def Let_def)

lemma ExecuteRequest_started:
  "session (ExecuteRequest e cb reg) = Some opts \<Longrightarrow>
     opts = configure (params cb) \<and>
     ExecuteRequest e cb reg =
       capture e (params cb) (curl_easy_perform (configure (params cb)) e cb reg)"
  by (auto simp: ExecuteRequest_def early_exit_def capture_def split: if_splits)

lemma ExecuteRequest_runs:
  "curl_init_ok e \<Longrightarrow> uploadFilePath (params cb) = [] \<or> upload_open_ok e \<Longrightarrow>
   downloadFilePath (params cb) = [] \<or> download_open_ok e \<Longrightarrow>
     ExecuteRequest e cb reg =
       capture e (params cb) (curl_easy_perform (configure (params cb)) e cb reg)"
  by (auto simp: ExecuteRequest_def)

lemma response_body_cases:
  "response_body p hm =
     (if (\<exists>ct. hm ''Content-Type'' = Some ct \<and>
            (found_in ''application/octet-stream'' ct \<or> found_in ''image/'' ct)) \<and>
         downloadFilePath p = []
      then ArrayBuffer (response p) else Text (response p))"
  by (cases "hm ''Content-Type''") (simp_all add: response_body_def)

lemma progress_callback_samples:
  "snd (snd (snd (progress_callback cb reg t))) =
     snd (report_upload cb t) @ snd (report_download (fst (report_upload cb t)) t)"
  by (simp add: progress_callback_def split: prod.splits)

lemma progress_callback_rc:
  "fst (progress_callback cb reg t) =
     (if requestId (params cb) \<noteq> 0 \<and> reg (requestId (params cb)) = Some True then 1 else 0)"
proof -
  obtain cb1 out1 where u: "report_upload cb t = (cb1, out1)" by (cases "report_upload cb t")
  obtain cb2 out2 where d: "report_download cb1 t = (cb2, out2)" by (cases "report_download cb1 t")
  from report_upload_fields [OF u] report_download_fields [OF d]
  have same: "requestId (params cb2) = requestId (params cb)" by simp
  show ?thesis by (simp add: progress_callback_def u d poll_cancel_cases same)
qed

lemma int64_t_id:
  "- 9223372036854775808 \<le> x \<Longrightarrow> x < 9223372036854775808 \<Longrightarrow> int64_t x = x"
  by (simp add: int64_t_def)

lemma drive_quiet:
  "\<forall>a. CancelCall a \<notin> set es \<Longrightarrow>
   requestId (params cb) = 0 \<or> reg (requestId (params cb)) \<noteq> Some True \<Longrightarrow>
   drive w es cb reg out = (ab, cb1, reg1, out1) \<Longrightarrow> \<not> ab \<and> reg1 = reg"
proof (induction es arbitrary: cb out)
  case Nil
  then show ?case by simp
next
  case (Cons ev es)
  show ?case
  proof (cases ev)
    case (CancelCall a)
    with Cons.prems(1) show ?thesis by auto
  next
    case (Tick t)
    from Cons.prems have nc: "\<forall>a. CancelCall a \<notin> set es" by simp
    show ?thesis
    proof (cases w)
      case False
      with Cons.IH [of cb out] nc Cons.prems(2,3) show ?thesis by (simp add: Tick)
    next
      case True
      obtain rc cb' reg' new where pc: "progress_callback cb reg t = (rc, cb', reg', new)"
        by (cases "progress_callback cb reg t")
      show ?thesis
      proof (cases "rc = 0")
        case False
        from progress_callback_abort [OF pc False] Cons.prems(2) show ?thesis by simp
      next
        case z: True
        with pc have c: "progress_callback cb reg t = (0, cb', reg', new)" by simp
        from progress_callback_continue [OF c] Cons.prems(2)
        have k: "reg' = reg" "requestId (params cb') = 0 \<or> reg (requestId (params cb')) \<noteq> Some True"
          by simp_all
        from Cons.prems(3) pc z True k(1)
        have "drive w es cb' reg (out @ new) = (ab, cb1, reg1, out1)" by (simp add: Tick)
        from Cons.IH [of cb' "out @ new"] nc k(2) this show ?thesis by simp
      qed
    qed
  qed
qed

lemma drive_flag_kept:
  "requestId (params cb) \<noteq> 0 \<Longrightarrow> reg (requestId (params cb)) = Some True \<Longrightarrow>
   drive True es cb reg out = (False, cb1, reg1, out1) \<Longrightarrow>
     reg1 (requestId (params cb)) = Some True \<and> cb1 = cb"
proof (induction es arbitrary: reg)
  case Nil
  then show ?case by simp
next
  case (Cons ev es)
  show ?case
  proof (cases ev)
    case (Tick t)
    from progress_callback_flagged [of cb reg t] Cons.prems(1,2) Cons.prems(3)
    show ?thesis by (auto simp: Tick)
  next
    case (CancelCall a)
    from Cons.IH [of "cancelRequest a reg"] Cons.prems(1)
      cancelRequest_keeps_True [of reg "requestId (params cb)" a] Cons.prems(2,3)
    show ?thesis by (simp add: CancelCall)
  qed
qed

lemma drive_pending:
  "requestId (params cb) = word_of_int n \<Longrightarrow> requestId (params cb) \<noteq> 0 \<Longrightarrow>
   reg (word_of_int n) \<noteq> None \<Longrightarrow>
   drive True (pre @ CancelCall [JsNumber n] # post) cb reg out = (False, cb1, reg1, out1) \<Longrightarrow>
     reg1 (word_of_int n) = Some True \<and> requestId (params cb1) = word_of_int n"
proof (induction pre arbitrary: cb reg out)
  case Nil
  from Nil.prems(3) obtain b where "reg (word_of_int n) = Some b" by auto
  then have "cancelRequest [JsNumber n] reg (requestId (params cb)) = Some True"
    by (simp add: cancelRequest_known Nil.prems(1))
  from drive_flag_kept [of cb "cancelRequest [JsNumber n] reg" post out cb1 reg1 out1]
    Nil.prems(1,2,4) this
  show ?case by simp
next
  case (Cons ev pre)
  show ?case
  proof (cases ev)
    case (CancelCall a)
    from Cons.IH [of cb "cancelRequest a reg" out] Cons.prems(1,2,4)
      cancelRequest_present [of reg "word_of_int n" a] Cons.prems(3)
    show ?thesis by (simp add: CancelCall)
  next
    case (Tick t')
    obtain rc cb' reg' new where pc: "progress_callback cb reg t' = (rc, cb', reg', new)"
      by (cases "progress_callback cb reg t'")
    show ?thesis
    proof (cases "rc = 0")
      case False
      with pc Cons.prems(4) show ?thesis by (simp add: Tick)
    next
      case True
      with pc have c: "progress_callback cb reg t' = (0, cb', reg', new)" by simp
      from progress_callback_continue [OF c] Cons.prems
      have "requestId (params cb') = word_of_int n" "requestId (params cb') \<noteq> 0"
        "reg' (word_of_int n) \<noteq> None" by simp_all
      from Cons.IH [of cb' reg' "out @ new"] this Cons.prems(4) pc True
      show ?thesis by (simp add: Tick)
    qed
  qed
qed

lemma closing_call_fields:
  assumes "closing_call w c cb reg = (rc, cb', reg', new)"
  shows "requestId (params cb') = requestId (params cb) \<and>
     downloadFilePath (params cb') = downloadFilePath (params cb) \<and>
     uploadFilePath (params cb') = uploadFilePath (params cb) \<and>
     formData (params cb') = formData (params cb) \<and>
     resumeFromOffset (params cb') = resumeFromOffset (params cb) \<and>
     response (params cb') = response (params cb) \<and>
     responseCode (params cb') = responseCode (params cb) \<and>
     responseHeaders (params cb') = responseHeaders (params cb) \<and>
     tsfn cb' = tsfn cb"
proof (cases "w \<and> c \<noteq> None")
  case True
  then obtain t where "c = Some t" by auto
  with True assms have "progress_callback cb reg t = (rc, cb', reg', new)"
    by (simp add: closing_call_def)
  from progress_callback_fields [OF this] show ?thesis .
next
  case False
  with assms have "cb' = cb" by (auto simp: closing_call_def split: option.splits)
  then show ?thesis by simp
qed

lemma closing_call_outcome:
  assumes "closing_call w c cb reg = (rc, cb', reg', new)"
  shows "if rc \<noteq> 0
     then errorMsg (params cb') = ''Request canceled by user'' \<and>
          requestId (params cb) \<noteq> 0 \<and> reg (requestId (params cb)) = Some True \<and>
          reg' = reg(requestId (params cb) := None)
     else errorMsg (params cb') = errorMsg (params cb) \<and> reg' = reg"
proof (cases "w \<and> c \<noteq> None")
  case True
  then obtain t where "c = Some t" by auto
  with True assms have pc: "progress_callback cb reg t = (rc, cb', reg', new)"
    by (simp add: closing_call_def)
  show ?thesis
  proof (cases "rc = 0")
    case True
    with pc have "progress_callback cb reg t = (0, cb', reg', new)" by simp
    from progress_callback_continue [OF this] True show ?thesis by simp
  next
    case False
    from progress_callback_abort [OF pc False] False show ?thesis by simp
  qed
next
  case False
  with assms have "cb' = cb \<and> reg' = reg \<and> rc = 0"
    by (auto simp: closing_call_def split: option.splits)
  then show ?thesis by simp
qed

lemma closing_call_flagged:
  assumes "requestId (params cb) \<noteq> 0" and "reg (requestId (params cb)) = Some True"
  shows "fst (closing_call True (Some t) cb reg) \<noteq> 0"
  using progress_callback_flagged [of cb reg t] assms by (auto simp: closing_call_def)

text \<open>The result of \<open>curl_easy_perform\<close>, in terms of the state the in-flight events
  leave and of the final invocation.\<close>

lemma perform_in_flight:
  assumes "drive (\<not> NOPROGRESS opts) (events e) cb reg [] = (True, cb1, reg1, out1)"
  shows "curl_easy_perform opts e cb reg =
     \<lparr>res = CURLE_ABORTED_BY_CALLBACK, response_code = 0, header_block = [],
      body_bytes = [], cb_after = cb1, reg_after = reg1, samples = out1, stopped = InFlight\<rparr>"
  using assms by (simp add: curl_easy_perform_def)

lemma perform_to_the_end:
  assumes "drive (\<not> NOPROGRESS opts) (events e) cb reg [] = (False, cb1, reg1, out1)"
    and "closing_call (\<not> NOPROGRESS opts) (closing e) cb1 reg1 = (rc, cb2, reg2, new)"
  shows "curl_easy_perform opts e cb reg =
     \<lparr>res = (if transfer_code opts (fin e) = CURLE_OK \<and> rc \<noteq> 0
             then CURLE_ABORTED_BY_CALLBACK else transfer_code opts (fin e)),
      response_code = fst (delivered opts (fin e)),
      header_block = fst (snd (delivered opts (fin e))),
      body_bytes = snd (snd (delivered opts (fin e))),
      cb_after = cb2, reg_after = reg2, samples = out1 @ new,
      stopped = (if rc \<noteq> 0 then AtClose else Uninterrupted)\<rparr>"
  using assms by (simp add: curl_easy_perform_def)

lemma perform_fields:
  "requestId (params (cb_after (curl_easy_perform opts e cb reg))) = requestId (params cb) \<and>
   downloadFilePath (params (cb_after (curl_easy_perform opts e cb reg))) =
     downloadFilePath (params cb) \<and>
   response (params (cb_after (curl_easy_perform opts e cb reg))) = response (params cb) \<and>
   responseCode (params (cb_after (curl_easy_perform opts e cb reg))) = responseCode (params cb) \<and>
   responseHeaders (params (cb_after (curl_easy_perform opts e cb reg))) =
     responseHeaders (params cb)"
proof -
  obtain ab cb1 reg1 out1 where
    d: "drive (\<not> NOPROGRESS opts) (events e) cb reg [] = (ab, cb1, reg1, out1)"
    by (cases "drive (\<not> NOPROGRESS opts) (events e) cb reg []")
  note f = drive_fields [OF d]
  show ?thesis
  proof (cases ab)
    case True
    with d perform_in_flight [of opts e cb reg cb1 reg1 out1] f show ?thesis by simp
  next
    case False
    obtain rc cb2 reg2 new where
      c: "closing_call (\<not> NOPROGRESS opts) (closing e) cb1 reg1 = (rc, cb2, reg2, new)"
      by (cases "closing_call (\<not> NOPROGRESS opts) (closing e) cb1 reg1")
    from False d perform_to_the_end [of opts e cb reg cb1 reg1 out1 rc cb2 reg2 new] c
      f closing_call_fields [OF c]
    show ?thesis by simp
  qed
qed

lemma perform_outcome:
  "if stopped (curl_easy_perform opts e cb reg) = Uninterrupted
   then errorMsg (params (cb_after (curl_easy_perform opts e cb reg))) = errorMsg (params cb)
   else errorMsg (params (cb_after (curl_easy_perform opts e cb reg))) =
          ''Request canceled by user'' \<and>
        requestId (params cb) \<noteq> 0 \<and>
        reg_after (curl_easy_perform opts e cb reg) (requestId (params cb)) = None"
proof -
  obtain ab cb1 reg1 out1 where
    d: "drive (\<not> NOPROGRESS opts) (events e) cb reg [] = (ab, cb1, reg1, out1)"
    by (cases "drive (\<not> NOPROGRESS opts) (events e) cb reg []")
  note o = drive_outcome [OF d]
  note f = drive_fields [OF d]
  show ?thesis
  proof (cases ab)
    case True
    with d perform_in_flight [of opts e cb reg cb1 reg1 out1] o show ?thesis by simp
  next
    case False
    obtain rc cb2 reg2 new where
      c: "closing_call (\<not> NOPROGRESS opts) (closing e) cb1 reg1 = (rc, cb2, reg2, new)"
      by (cases "closing_call (\<not> NOPROGRESS opts) (closing e) cb1 reg1")
    from False d perform_to_the_end [of opts e cb reg cb1 reg1 out1 rc cb2 reg2 new] c
    have p: "stopped (curl_easy_perform opts e cb reg) = (if rc \<noteq> 0 then AtClose else Uninterrupted)"
      "cb_after (curl_easy_perform opts e cb reg) = cb2"
      "reg_after (curl_easy_perform opts e cb reg) = reg2" by simp_all
    from closing_call_outcome [OF c] o False f show ?thesis
      by (cases "rc = 0") (simp_all add: p)
  qed
qed

lemma perform_res:
  "res (curl_easy_perform opts e cb reg) =
     (case stopped (curl_easy_perform opts e cb reg) of
        InFlight \<Rightarrow> CURLE_ABORTED_BY_CALLBACK
      | AtClose \<Rightarrow> (if transfer_code opts (fin e) = CURLE_OK then CURLE_ABORTED_BY_CALLBACK
                    else transfer_code opts (fin e))
      | Uninterrupted \<Rightarrow> transfer_code opts (fin e)) \<and>
   (stopped (curl_easy_perform opts e cb reg) \<noteq> InFlight \<longrightarrow>
      response_code (curl_easy_perform opts e cb reg) = fst (delivered opts (fin e)) \<and>
      header_block (curl_easy_perform opts e cb reg) = fst (snd (delivered opts (fin e))) \<and>
      body_bytes (curl_easy_perform opts e cb reg) = snd (snd (delivered opts (fin e))))"
proof -
  obtain ab cb1 reg1 out1 where
    d: "drive (\<not> NOPROGRESS opts) (events e) cb reg [] = (ab, cb1, reg1, out1)"
    by (cases "drive (\<not> NOPROGRESS opts) (events e) cb reg []")
  show ?thesis
  proof (cases ab)
    case True
    with d perform_in_flight [of opts e cb reg cb1 reg1 out1] show ?thesis by simp
  next
    case False
    obtain rc cb2 reg2 new where
      c: "closing_call (\<not> NOPROGRESS opts) (closing e) cb1 reg1 = (rc, cb2, reg2, new)"
      by (cases "closing_call (\<not> NOPROGRESS opts) (closing e) cb1 reg1")
    from False d perform_to_the_end [of opts e cb reg cb1 reg1 out1 rc cb2 reg2 new] c
    show ?thesis by (cases "rc = 0") simp_all
  qed
qed

lemma perform_in_flight_iff:
  "stopped (curl_easy_perform opts e cb reg) = InFlight \<longleftrightarrow>
     fst (drive (\<not> NOPROGRESS opts) (events e) cb reg [])"
proof -
  obtain ab cb1 reg1 out1 where
    d: "drive (\<not> NOPROGRESS opts) (events e) cb reg [] = (ab, cb1, reg1, out1)"
    by (cases "drive (\<not> NOPROGRESS opts) (events e) cb reg []")
  show ?thesis
  proof (cases ab)
    case True
    with d perform_in_flight [of opts e cb reg cb1 reg1 out1] show ?thesis by simp
  next
    case False
    obtain rc cb2 reg2 new where
      c: "closing_call (\<not> NOPROGRESS opts) (closing e) cb1 reg1 = (rc, cb2, reg2, new)"
      by (cases "closing_call (\<not> NOPROGRESS opts) (closing e) cb1 reg1")
    from False d perform_to_the_end [of opts e cb reg cb1 reg1 out1 rc cb2 reg2 new] c
    show ?thesis by simp
  qed
qed

lemma ExecuteRequest_requestId:
  "requestId (params (cb_out (ExecuteRequest e cb reg))) = requestId (params cb)"
  using perform_fields [of "configure (params cb)" e cb reg]
  by (simp add: ExecuteRequest_def early_exit_def capture_def capture_success_def
      capture_failure_def Let_def)

lemma clear_request_absent: "requestId p \<noteq> 0 \<Longrightarrow> clear_request p reg (requestId p) = None"
  by (simp add: clear_request_def domIff)

lemma completed_request_cleared:
  "requestId (params cb) \<noteq> 0 \<Longrightarrow>
   snd (CompleteCB status (cb_out (ExecuteRequest e cb reg)) (reg_out (ExecuteRequest e cb reg)))
     (requestId (params cb)) = None"
  using clear_request_absent [of "params (cb_out (ExecuteRequest e cb reg))"
      "reg_out (ExecuteRequest e cb reg)"]
  by (simp add: CompleteCB_def Let_def ExecuteRequest_requestId)

lemma interrupted_rejects:
  assumes run: "ExecuteRequest e cb reg =
       capture e (params cb) (curl_easy_perform (configure (params cb)) e cb reg)"
    and st: "stopped (curl_easy_perform (configure (params cb)) e cb reg) \<noteq> Uninterrupted"
  shows "fst (CompleteCB napi_ok (cb_out (ExecuteRequest e cb reg)) (reg_out (ExecuteRequest e cb reg)))
           = Rejected
               (if res (curl_easy_perform (configure (params cb)) e cb reg) = CURLE_HTTP_RETURNED_ERROR
                then response_code (curl_easy_perform (configure (params cb)) e cb reg)
                else res (curl_easy_perform (configure (params cb)) e cb reg))
               ''Request canceled by user''"
proof -
  define r where "r = curl_easy_perform (configure (params cb)) e cb reg"
  from perform_outcome [of "configure (params cb)" e cb reg] st
  have m: "errorMsg (params (cb_after r)) = ''Request canceled by user''"
    by (simp add: r_def)
  from perform_res [of "configure (params cb)" e cb reg] st
  have nok: "res r \<noteq> CURLE_OK"
    by (cases "stopped r")
       (auto simp: r_def CURLE_OK_def CURLE_ABORTED_BY_CALLBACK_def split: if_splits)
  show ?thesis
    unfolding r_def [symmetric]
    by (simp add: run r_def [symmetric] capture_def capture_failure_def CompleteCB_def
        ResponseErrorCB_def napi_ok_def m nok Let_def)
qed

lemma ExecuteRequest_clean:
  assumes ok: "errorMsg (params (cb_out (ExecuteRequest e cb reg))) = []"
    and se: "\<forall>c. curl_easy_strerror e c \<noteq> []"
    and ex: "fin e = HttpExchange st hs bd"
  shows "downloadFilePath (params (cb_out (ExecuteRequest e cb reg))) = downloadFilePath (params cb) \<and>
         responseCode (params (cb_out (ExecuteRequest e cb reg))) = st \<and>
         responseHeaders (params (cb_out (ExecuteRequest e cb reg))) = hs \<and>
         response (params (cb_out (ExecuteRequest e cb reg))) =
           (if downloadFilePath (params cb) \<noteq> [] then ''download finished'' else bd)"
proof (cases "session (ExecuteRequest e cb reg)")
  case None
  with ok show ?thesis
    by (auto simp: ExecuteRequest_def early_exit_def capture_def split: if_splits)
next
  case (Some os)
  from ExecuteRequest_started [OF Some]
  have run: "ExecuteRequest e cb reg =
       capture e (params cb) (curl_easy_perform (configure (params cb)) e cb reg)" by simp
  define r where "r = curl_easy_perform (configure (params cb)) e cb reg"
  from perform_fields [of "configure (params cb)" e cb reg]
  have same: "downloadFilePath (params (cb_after r)) = downloadFilePath (params cb)"
    by (simp add: r_def)
  have succ: "res r = CURLE_OK"
  proof (rule ccontr)
    assume "res r \<noteq> CURLE_OK"
    then have "errorMsg (params (cb_out (ExecuteRequest e cb reg))) \<noteq> []"
      using se by (simp add: run r_def [symmetric] capture_def capture_failure_def Let_def)
    with ok show False by simp
  qed
  from perform_res [of "configure (params cb)" e cb reg] succ
  have u: "stopped r = Uninterrupted \<and> transfer_code (configure (params cb)) (fin e) = CURLE_OK"
    by (cases "stopped r")
       (auto simp: r_def CURLE_OK_def CURLE_ABORTED_BY_CALLBACK_def split: if_splits)
  then have plain: "\<not> (FAILONERROR (configure (params cb)) \<and> 400 \<le> st)"
    by (auto simp: transfer_code_def ex CURLE_OK_def CURLE_HTTP_RETURNED_ERROR_def)
  from perform_res [of "configure (params cb)" e cb reg] u plain
  have got: "response_code r = st" "header_block r = hs" "body_bytes r = bd"
    by (simp_all add: r_def delivered_def ex)
  show ?thesis
    by (simp add: run r_def [symmetric] capture_def succ capture_success_def same got)
qed

text \<open>Which samples a request can report.\<close>

lemma tick_samples:
  "set (snd (snd (snd (progress_callback cb reg t)))) \<subseteq>
     (if uploadFilePath (params cb) = [] \<and> formData (params cb) = [] then {}
      else {\<lparr>currentSize = ulnow t, totalSize = ultotal t\<rparr>}) \<union>
     {\<lparr>currentSize = int64_t (resumeFromOffset (params cb) + dlnow t),
       totalSize = int64_t (resumeFromOffset (params cb) + dltotal t)\<rparr>}"
proof -
  obtain cb1 out1 where u: "report_upload cb t = (cb1, out1)" by (cases "report_upload cb t")
  from report_upload_fields [OF u]
  have r: "resumeFromOffset (params cb1) = resumeFromOffset (params cb)" by simp
  have "set out1 \<subseteq>
     (if uploadFilePath (params cb) = [] \<and> formData (params cb) = [] then {}
      else {\<lparr>currentSize = ulnow t, totalSize = ultotal t\<rparr>})"
    using u by (auto simp: report_upload_def upload_due_def split: if_splits)
  moreover have "set (snd (report_download cb1 t)) \<subseteq>
     {\<lparr>currentSize = int64_t (resumeFromOffset (params cb) + dlnow t),
       totalSize = int64_t (resumeFromOffset (params cb) + dltotal t)\<rparr>}"
    by (simp add: report_download_def r)
  ultimately show ?thesis
    by (auto simp: progress_callback_samples u split: if_splits)
qed

lemma drive_samples:
  "drive w es cb reg out = (ab, cb', reg', out') \<Longrightarrow>
     set out' \<subseteq> set out \<union>
       (if uploadFilePath (params cb) = [] \<and> formData (params cb) = [] then {}
        else {\<lparr>currentSize = ulnow t, totalSize = ultotal t\<rparr> | t. Tick t \<in> set es}) \<union>
       {\<lparr>currentSize = int64_t (resumeFromOffset (params cb) + dlnow t),
         totalSize = int64_t (resumeFromOffset (params cb) + dltotal t)\<rparr> | t. Tick t \<in> set es}"
proof (induction w es cb reg out rule: drive.induct)
  case (1 wired cb reg out)
  then show ?case by simp
next
  case (2 wired a es cb reg out)
  then show ?case by (auto split: if_splits)
next
  case (3 wired t es cb reg out)
  show ?case
  proof (cases wired)
    case False
    with 3(2) [OF False] 3(3) show ?thesis by (auto split: if_splits)
  next
    case True
    obtain rc cb1 reg1 new where pc: "progress_callback cb reg t = (rc, cb1, reg1, new)"
      by (cases "progress_callback cb reg t")
    note f = progress_callback_fields [OF pc]
    from tick_samples [of cb reg t] pc
    have n: "set new \<subseteq>
     (if uploadFilePath (params cb) = [] \<and> formData (params cb) = [] then {}
      else {\<lparr>currentSize = ulnow t, totalSize = ultotal t\<rparr>}) \<union>
     {\<lparr>currentSize = int64_t (resumeFromOffset (params cb) + dlnow t),
       totalSize = int64_t (resumeFromOffset (params cb) + dltotal t)\<rparr>}" by simp
    show ?thesis
    proof (cases "rc = 0")
      case False
      with 3(3) True pc have "out' = out @ new" by auto
      with n show ?thesis by (auto split: if_splits)
    next
      case z: True
      from 3(3) True pc z have "drive wired es cb1 reg1 (out @ new) = (ab, cb', reg', out')"
        by simp
      from 3(1) [OF True pc [symmetric] refl refl _ this] z f
      have "set out' \<subseteq> set (out @ new) \<union>
       (if uploadFilePath (params cb) = [] \<and> formData (params cb) = [] then {}
        else {\<lparr>currentSize = ulnow t, totalSize = ultotal t\<rparr> | t. Tick t \<in> set es}) \<union>
       {\<lparr>currentSize = int64_t (resumeFromOffset (params cb) + dlnow t),
         totalSize = int64_t (resumeFromOffset (params cb) + dltotal t)\<rparr> | t. Tick t \<in> set es}"
        by simp
      with n show ?thesis by (auto split: if_splits)
    qed
  qed
qed

lemma closing_call_samples:
  "set (snd (snd (snd (closing_call w c cb reg)))) \<subseteq>
     (if uploadFilePath (params cb) = [] \<and> formData (params cb) = [] then {}
      else {\<lparr>currentSize = ulnow t, totalSize = ultotal t\<rparr> | t. c = Some t}) \<union>
     {\<lparr>currentSize = int64_t (resumeFromOffset (params cb) + dlnow t),
       totalSize = int64_t (resumeFromOffset (params cb) + dltotal t)\<rparr> | t. c = Some t}"
proof (cases "w \<and> c \<noteq> None")
  case True
  then obtain t where "c = Some t" by auto
  with True tick_samples [of cb reg t] show ?thesis
    by (auto simp: closing_call_def split: if_splits)
next
  case False
  then show ?thesis by (auto simp: closing_call_def split: option.splits)
qed

lemma perform_samples:
  "set (samples (curl_easy_perform opts e cb reg)) \<subseteq>
     (if uploadFilePath (params cb) = [] \<and> formData (params cb) = [] then {}
      else {\<lparr>currentSize = ulnow t, totalSize = ultotal t\<rparr> | t.
              Tick t \<in> set (events e) \<or> closing e = Some t}) \<union>
     {\<lparr>currentSize = int64_t (resumeFromOffset (params cb) + dlnow t),
       totalSize = int64_t (resumeFromOffset (params cb) + dltotal t)\<rparr> | t.
         Tick t \<in> set (events e) \<or> closing e = Some t}"
proof -
  obtain ab cb1 reg1 out1 where
    d: "drive (\<not> NOPROGRESS opts) (events e) cb reg [] = (ab, cb1, reg1, out1)"
    by (cases "drive (\<not> NOPROGRESS opts) (events e) cb reg []")
  note s = drive_samples [OF d]
  note f = drive_fields [OF d]
  show ?thesis
  proof (cases ab)
    case True
    with d perform_in_flight [of opts e cb reg cb1 reg1 out1]
    have "samples (curl_easy_perform opts e cb reg) = out1" by simp
    with s show ?thesis by (auto split: if_splits)
  next
    case False
    obtain rc cb2 reg2 new where
      c: "closing_call (\<not> NOPROGRESS opts) (closing e) cb1 reg1 = (rc, cb2, reg2, new)"
      by (cases "closing_call (\<not> NOPROGRESS opts) (closing e) cb1 reg1")
    from False d perform_to_the_end [of opts e cb reg cb1 reg1 out1 rc cb2 reg2 new] c
    have eq: "samples (curl_easy_perform opts e cb reg) = out1 @ new" by simp
    from closing_call_samples [of "\<not> NOPROGRESS opts" "closing e" cb1 reg1] c f
    have n: "set new \<subseteq>
     (if uploadFilePath (params cb) = [] \<and> formData (params cb) = [] then {}
      else {\<lparr>currentSize = ulnow t, totalSize = ultotal t\<rparr> | t. closing e = Some t}) \<union>
     {\<lparr>currentSize = int64_t (resumeFromOffset (params cb) + dlnow t),
       totalSize = int64_t (resumeFromOffset (params cb) + dltotal t)\<rparr> | t. closing e = Some t}"
      by simp
    from s n show ?thesis unfolding eq by (auto split: if_splits)
  qed
qed

lemma ExecuteRequest_samples:
  "set (reported (ExecuteRequest e cb reg)) \<subseteq>
     (if uploadFilePath (params cb) = [] \<and> formData (params cb) = [] then {}
      else {\<lparr>currentSize = ulnow t, totalSize = ultotal t\<rparr> | t.
              Tick t \<in> set (events e) \<or> closing e = Some t}) \<union>
     {\<lparr>currentSize = int64_t (resumeFromOffset (params cb) + dlnow t),
       totalSize = int64_t (resumeFromOffset (params cb) + dltotal t)\<rparr> | t.
         Tick t \<in> set (events e) \<or> closing e = Some t}"
proof (cases "session (ExecuteRequest e cb reg)")
  case None
  then have "reported (ExecuteRequest e cb reg) = []"
    by (auto simp: ExecuteRequest_def early_exit_def capture_def split: if_splits)
  then show ?thesis by simp
next
  case (Some os)
  from ExecuteRequest_started [OF Some]
  have "reported (ExecuteRequest e cb reg) =
     samples (curl_easy_perform (configure (params cb)) e cb reg)"
    by (simp add: capture_def)
  with perform_samples [of "configure (params cb)" e cb reg] show ?thesis by simp
qed

text \<open>The header block, line by line.\<close>

lemma getlines_line:
  "CHR 0x0A \<notin> set l \<Longrightarrow> getlines cur (l @ CHR 0x0A # rest) = (cur @ l) # getlines [] rest"
  by (induction l arbitrary: cur) auto

lemma getlines_block:
  "\<forall>l \<in> set ls. CHR 0x0A \<notin> set l \<Longrightarrow> getlines [] (header_block_of ls) = ls"
proof (induction ls)
  case Nil
  then show ?case by (simp add: header_block_of_def)
next
  case (Cons l ls)
  then have "getlines [] (header_block_of ls) = ls" by simp
  moreover have "header_block_of (l # ls) = l @ CHR 0x0A # header_block_of ls"
    by (simp add: header_block_of_def)
  ultimately show ?case using Cons.prems getlines_line [of l "[]" "header_block_of ls"]
    by simp
qed

lemma find_snoc:
  "find P (xs @ [y]) = (case find P xs of None \<Rightarrow> (if P y then Some y else None) | Some x \<Rightarrow> Some x)"
  by (induction xs) simp_all

lemma parse_line_lookup:
  "parse_line m l k =
     (if CHR '':'' \<in> set l \<and> header_name l = k then Some (header_value l) else m k)"
  by (simp add: parse_line_def)

lemma header_fold_lookup:
  "foldl parse_line m ls k =
     (case find (\<lambda>l. CHR '':'' \<in> set l \<and> header_name l = k) (rev ls) of
        None \<Rightarrow> m k
      | Some l \<Rightarrow> Some (header_value l))"
proof (induction ls arbitrary: m)
  case Nil
  then show ?case by simp
next
  case (Cons l ls)
  have "foldl parse_line m (l # ls) k = foldl parse_line (parse_line m l) ls k" by simp
  also have "\<dots> =
     (case find (\<lambda>l. CHR '':'' \<in> set l \<and> header_name l = k) (rev ls) of
        None \<Rightarrow> parse_line m l k
      | Some l \<Rightarrow> Some (header_value l))" by (rule Cons.IH)
  also have "\<dots> =
     (case find (\<lambda>l. CHR '':'' \<in> set l \<and> header_name l = k) (rev (l # ls)) of
        None \<Rightarrow> m k
      | Some l \<Rightarrow> Some (header_value l))"
    by (simp add: find_snoc parse_line_lookup split: option.splits)
  finally show ?case .
qed

lemma ParseHeaders_block:
  "\<forall>l \<in> set ls. CHR 0x0A \<notin> set l \<Longrightarrow>
   ParseHeaders (header_block_of ls) k =
     (case find (\<lambda>l. CHR '':'' \<in> set l \<and> header_name l = k) (rev ls) of
        None \<Rightarrow> None
      | Some l \<Rightarrow> Some (header_value l))"
  by (simp add: ParseHeaders_def getlines_block header_fold_lookup)

lemma perform_undisturbed:
  assumes quiet: "\<forall>a. CancelCall a \<notin> set (events e)"
    and nf: "requestId (params cb) = 0 \<or> reg (requestId (params cb)) \<noteq> Some True"
  shows "stopped (curl_easy_perform opts e cb reg) = Uninterrupted"
proof -
  obtain ab cb1 reg1 out1 where
    d: "drive (\<not> NOPROGRESS opts) (events e) cb reg [] = (ab, cb1, reg1, out1)"
    by (cases "drive (\<not> NOPROGRESS opts) (events e) cb reg []")
  from drive_quiet [OF quiet nf d] have k: "\<not> ab" "reg1 = reg" by simp_all
  from drive_fields [OF d] have f: "requestId (params cb1) = requestId (params cb)" by simp
  obtain rc cb2 reg2 new where
    c: "closing_call (\<not> NOPROGRESS opts) (closing e) cb1 reg1 = (rc, cb2, reg2, new)"
    by (cases "closing_call (\<not> NOPROGRESS opts) (closing e) cb1 reg1")
  from closing_call_outcome [OF c] nf k(2) f have "rc = 0" by (auto split: if_splits)
  with k(1) d perform_to_the_end [of opts e cb reg cb1 reg1 out1 rc cb2 reg2 new] c
  show ?thesis by simp
qed

lemma status_error_needs_failonerror:
  assumes f: "fin e = HttpExchange st hs bd"
    and r: "res (curl_easy_perform opts e cb reg) = CURLE_HTTP_RETURNED_ERROR"
  shows "FAILONERROR opts \<and> 400 \<le> st \<and> response_code (curl_easy_perform opts e cb reg) = st"
proof -
  from perform_res [of opts e cb reg] r
  have "stopped (curl_easy_perform opts e cb reg) \<noteq> InFlight \<and>
        transfer_code opts (fin e) = CURLE_HTTP_RETURNED_ERROR"
    by (cases "stopped (curl_easy_perform opts e cb reg)")
       (auto simp: CURLE_ABORTED_BY_CALLBACK_def CURLE_HTTP_RETURNED_ERROR_def split: if_splits)
  moreover from this have "FAILONERROR opts \<and> 400 \<le> st"
    by (auto simp: transfer_code_def f CURLE_OK_def CURLE_HTTP_RETURNED_ERROR_def
        split: if_splits)
  ultimately show ?thesis
    using perform_res [of opts e cb reg] by (simp add: delivered_def f)
qed

lemmas model_defs =
  Request_unfold parse_upload_def parse_download_def parse_requestID_def parse_formdata_def
  parse_method_def new_RequestCallbackData_def request_lifecycle_def ExecuteRequest_def
  early_exit_def capture_def configure_def set_method_def set_progress_def set_download_def
  download_mode_def capture_success_def capture_failure_def curl_easy_perform_def
  curl_easy_init_def CompleteCB_def clear_request_def ResponseErrorCB_def response_body_def
  napi_ok_def CURLE_OK_def CURLE_HTTP_RETURNED_ERROR_def CURLE_ABORTED_BY_CALLBACK_def
  progress_callback_def poll_cancel_def report_upload_def report_download_def upload_due_def
  download_due_def duration_cast_seconds_def cancelRequest_def dec_int_def Let_def
  plain_get_def serving_def closing_call_def transfer_code_def delivered_def int64_t_def
  napi_get_value_string_utf8_def c_string_def header_name_def header_value_def
  header_block_of_def http_lines_def

section \<open>Cancellation\<close>

text \<open>
  C1. For a request in flight with a non-zero id: \<open>cancelRequest\<close> never creates or removes
  an entry, leaves the registry unchanged for an id that is not a key, and sets the flag of
  a key to true; an invocation of the hook for a request whose flag is true returns
  non-zero and erases the entry. Hence, when \<open>cancelRequest(id)\<close> is called during the
  transfer and the hook is invoked afterwards (a tick of the running transfer, or the final
  invocation), the promise is rejected with the message of a cancelled request, and with
  the code 42 when a tick of the running transfer follows the call. However the request
  ends (\<open>e'\<close> ranges over all environments: success, failure, cancellation, early
  return), the registry holds no entry for the id afterwards, so that \<open>cancelRequest(id)\<close>
  for a completed request changes nothing.
\<close>

theorem cancel_in_flight_request:
  assumes rid: "opt_requestID opts = JsNumber n" and nz: "(word_of_int n :: int32_t) \<noteq> 0"
    and init: "curl_init_ok e" and up: "upload_open_ok e" and down: "download_open_ok e"
    and ev: "events e = pre @ CancelCall [JsNumber n] # post"
    and tick: "(\<exists>t. Tick t \<in> set post) \<or> (\<exists>t. closing e = Some t)"
  shows "(\<exists>code. fst (request_lifecycle opts fs e reg) =
            Rejected code ''Request canceled by user'') \<and>
         ((\<exists>t. Tick t \<in> set post) \<longrightarrow>
            fst (request_lifecycle opts fs e reg) = Rejected 42 ''Request canceled by user'') \<and>
         (\<forall>e'. fst (snd (request_lifecycle opts fs e' reg)) (word_of_int n) = None \<and>
            cancelRequest [JsNumber n] (fst (snd (request_lifecycle opts fs e' reg))) =
              fst (snd (request_lifecycle opts fs e' reg))) \<and>
         (\<forall>args r. dom (cancelRequest args r) = dom r) \<and>
         (\<forall>m r. r (word_of_int m) = None \<longrightarrow> cancelRequest [JsNumber m] r = r) \<and>
         (\<forall>m r b. r (word_of_int m) = Some b \<longrightarrow>
            cancelRequest [JsNumber m] r = r(word_of_int m \<mapsto> True)) \<and>
         (\<forall>cb r tk. requestId (params cb) \<noteq> 0 \<and> r (requestId (params cb)) = Some True \<longrightarrow>
            fst (progress_callback cb r tk) = 1 \<and>
            fst (snd (snd (progress_callback cb r tk))) = r(requestId (params cb) := None))"
proof -
  obtain cb reg1 where R: "Request opts fs reg = (cb, reg1)" by (cases "Request opts fs reg")
  from Request_result [OF R] rid
  have q: "requestId (params cb) = word_of_int n" "reg1 (word_of_int n) = Some False" by simp_all
  have life: "request_lifecycle opts fs e' reg =
      (fst (CompleteCB napi_ok (cb_out (ExecuteRequest e' cb reg1)) (reg_out (ExecuteRequest e' cb reg1))),
       snd (CompleteCB napi_ok (cb_out (ExecuteRequest e' cb reg1)) (reg_out (ExecuteRequest e' cb reg1))),
       reported (ExecuteRequest e' cb reg1))" for e'
    by (simp add: request_lifecycle_def R Let_def split: prod.splits)
  have run: "ExecuteRequest e cb reg1 =
       capture e (params cb) (curl_easy_perform (configure (params cb)) e cb reg1)"
    by (rule ExecuteRequest_runs) (simp_all add: init up down)
  define r where "r = curl_easy_perform (configure (params cb)) e cb reg1"
  have w: "\<not> NOPROGRESS (configure (params cb))" using q nz by (simp add: NOPROGRESS_configure)
  have flight: "stopped r = InFlight" if "Tick t \<in> set post" for t
  proof -
    have "fst (drive True (pre @ CancelCall [JsNumber n] # post) cb reg1 [])"
      using drive_cancelled [of cb n reg1 t post pre "[]"] q nz that by simp
    with w ev show ?thesis by (simp add: r_def perform_in_flight_iff)
  qed
  have seen: "stopped r \<noteq> Uninterrupted"
  proof (cases "fst (drive True (events e) cb reg1 [])")
    case True
    with w have "stopped r = InFlight" by (simp add: r_def perform_in_flight_iff)
    then show ?thesis by simp
  next
    case False
    then obtain cb1 reg2 out1 where
      d: "drive True (events e) cb reg1 [] = (False, cb1, reg2, out1)"
      by (cases "drive True (events e) cb reg1 []") auto
    from False tick ev drive_cancelled [of cb n reg1 _ post pre "[]"] q nz
    obtain t where c: "closing e = Some t" by auto
    from drive_pending [of cb n reg1 pre post "[]" cb1 reg2 out1] q nz d ev
    have "requestId (params cb1) \<noteq> 0" "reg2 (requestId (params cb1)) = Some True" by simp_all
    with closing_call_flagged [of cb1 reg2 t]
    obtain rc cb2 reg3 new where
      cc: "closing_call True (Some t) cb1 reg2 = (rc, cb2, reg3, new)" and "rc \<noteq> 0"
      by (cases "closing_call True (Some t) cb1 reg2") auto
    with perform_to_the_end [of "configure (params cb)" e cb reg1 cb1 reg2 out1 rc cb2 reg3 new]
      w d c
    show ?thesis by (simp add: r_def)
  qed
  from interrupted_rejects [OF run] seen
  have rej: "fst (request_lifecycle opts fs e reg) =
     Rejected (if res r = CURLE_HTTP_RETURNED_ERROR then response_code r else res r)
       ''Request canceled by user''"
    by (simp add: life r_def)
  then have first: "\<exists>code. fst (request_lifecycle opts fs e reg) =
            Rejected code ''Request canceled by user''" by blast
  have second: "(\<exists>t. Tick t \<in> set post) \<longrightarrow>
            fst (request_lifecycle opts fs e reg) = Rejected 42 ''Request canceled by user''"
  proof
    assume "\<exists>t. Tick t \<in> set post"
    then obtain t where "Tick t \<in> set post" ..
    from flight [OF this] perform_res [of "configure (params cb)" e cb reg1]
    have "res r = 42" by (simp add: r_def CURLE_ABORTED_BY_CALLBACK_def)
    with rej show "fst (request_lifecycle opts fs e reg) = Rejected 42 ''Request canceled by user''"
      by (simp add: CURLE_HTTP_RETURNED_ERROR_def)
  qed
  have third: "\<forall>e'. fst (snd (request_lifecycle opts fs e' reg)) (word_of_int n) = None \<and>
            cancelRequest [JsNumber n] (fst (snd (request_lifecycle opts fs e' reg))) =
              fst (snd (request_lifecycle opts fs e' reg))"
  proof
    fix e'
    from completed_request_cleared [of cb napi_ok e' reg1] q nz
    have "fst (snd (request_lifecycle opts fs e' reg)) (word_of_int n) = None"
      by (simp add: life)
    then show "fst (snd (request_lifecycle opts fs e' reg)) (word_of_int n) = None \<and>
            cancelRequest [JsNumber n] (fst (snd (request_lifecycle opts fs e' reg))) =
              fst (snd (request_lifecycle opts fs e' reg))"
      by (simp add: cancelRequest_unknown)
  qed
  have hook: "\<forall>cb r tk. requestId (params cb) \<noteq> 0 \<and> r (requestId (params cb)) = Some True \<longrightarrow>
            fst (progress_callback cb r tk) = 1 \<and>
            fst (snd (snd (progress_callback cb r tk))) = r(requestId (params cb) := None)"
  proof (intro allI impI)
    fix cb :: RequestCallbackData and r :: registry and tk
    assume a: "requestId (params cb) \<noteq> 0 \<and> r (requestId (params cb)) = Some True"
    from progress_callback_flagged [of cb r tk] a obtain cb' new where
      "progress_callback cb r tk = (1, cb', r(requestId (params cb) := None), new)" by blast
    then show "fst (progress_callback cb r tk) = 1 \<and>
            fst (snd (snd (progress_callback cb r tk))) = r(requestId (params cb) := None)"
      by simp
  qed
  from first second third hook show ?thesis
    by (simp add: cancelRequest_dom cancelRequest_unknown cancelRequest_known)
qed

theorem cancel_in_flight_request_witness:
  "fst (request_lifecycle (plain_get\<lparr>opt_method := Some ''POST'', opt_requestID := JsNumber 1234567890\<rparr>)
          Map.empty
          (serving [Tick \<lparr>now = 1000000000, dltotal = 0, dlnow = 0, ultotal = 0, ulnow = 0\<rparr>,
                    CancelCall [JsNumber 1234567890],
                    Tick \<lparr>now = 1300000000, dltotal = 0, dlnow = 0, ultotal = 0, ulnow = 0\<rparr>]
                   (HttpExchange 200 [] []))
          Map.empty)
     = Rejected 42 ''Request canceled by user'' \<and>
   fst (snd (request_lifecycle
          (plain_get\<lparr>opt_method := Some ''POST'', opt_requestID := JsNumber 1234567890\<rparr>)
          Map.empty (serving [] (HttpExchange 200 [] [])) Map.empty)) 1234567890 = None"
  using cancel_in_flight_request
    [of "plain_get\<lparr>opt_method := Some ''POST'', opt_requestID := JsNumber 1234567890\<rparr>"
        1234567890
        "serving [Tick \<lparr>now = 1000000000, dltotal = 0, dlnow = 0, ultotal = 0, ulnow = 0\<rparr>,
                  CancelCall [JsNumber 1234567890],
                  Tick \<lparr>now = 1300000000, dltotal = 0, dlnow = 0, ultotal = 0, ulnow = 0\<rparr>]
                 (HttpExchange 200 [] [])"
        "[Tick \<lparr>now = 1000000000, dltotal = 0, dlnow = 0, ultotal = 0, ulnow = 0\<rparr>]"
        "[Tick \<lparr>now = 1300000000, dltotal = 0, dlnow = 0, ultotal = 0, ulnow = 0\<rparr>]"
        Map.empty Map.empty]
  by (simp add: plain_get_def serving_def)

text \<open>
  C10, as stated, fails: \<open>cancelRequest\<close> is called while the transfer is timing out, the
  cancellation is detected on the final invocation of the hook, the transport keeps the
  code 28 of the failed transfer, and the promise is rejected with the code 28 and the
  message of a cancelled request.
\<close>

theorem cancel_code_counterexample:
  "fst (request_lifecycle (plain_get\<lparr>opt_requestID := JsNumber 7\<rparr>) Map.empty
     ((serving [CancelCall [JsNumber 7]] (TransportFailure 28))
        \<lparr>closing := Some \<lparr>now = 16000000000, dltotal = 0, dlnow = 0, ultotal = 0, ulnow = 0\<rparr>\<rparr>)
     Map.empty)
   = Rejected 28 ''Request canceled by user''"
  by (simp add: model_defs)

text \<open>
  C10, amended. The hook stores the message "Request canceled by user" whenever it returns
  non-zero; the failure branch keeps a message that is already set and takes the
  transport's description only for an empty one. Hence a request whose cancellation is
  detected is rejected with exactly that message. The code is 42 when the hook interrupts
  the running transfer, and when it returns non-zero on the final invocation of a transfer
  that ended well; when the cancellation is detected only on the final invocation of a
  transfer that has already failed, the code is the one of that failure: the transport's
  code, or the HTTP status when the status failed the transfer.
\<close>

theorem cancel_message_and_code:
  assumes started: "session (ExecuteRequest e cb reg) = Some opts"
  shows "(stopped (curl_easy_perform opts e cb reg) = InFlight \<longleftrightarrow>
            fst (drive (\<not> NOPROGRESS opts) (events e) cb reg [])) \<and>
         (stopped (curl_easy_perform opts e cb reg) = InFlight \<longrightarrow>
            fst (CompleteCB napi_ok (cb_out (ExecuteRequest e cb reg))
                   (reg_out (ExecuteRequest e cb reg)))
              = Rejected 42 ''Request canceled by user'') \<and>
         (stopped (curl_easy_perform opts e cb reg) = AtClose \<and>
          transfer_code opts (fin e) = CURLE_OK \<longrightarrow>
            fst (CompleteCB napi_ok (cb_out (ExecuteRequest e cb reg))
                   (reg_out (ExecuteRequest e cb reg)))
              = Rejected 42 ''Request canceled by user'') \<and>
         (\<forall>c. stopped (curl_easy_perform opts e cb reg) = AtClose \<and>
              fin e = TransportFailure c \<and> c \<noteq> CURLE_OK \<and> c \<noteq> CURLE_HTTP_RETURNED_ERROR \<longrightarrow>
            fst (CompleteCB napi_ok (cb_out (ExecuteRequest e cb reg))
                   (reg_out (ExecuteRequest e cb reg)))
              = Rejected c ''Request canceled by user'') \<and>
         (\<forall>st hs bd. stopped (curl_easy_perform opts e cb reg) = AtClose \<and>
              fin e = HttpExchange st hs bd \<and> FAILONERROR opts \<and> 400 \<le> st \<longrightarrow>
            fst (CompleteCB napi_ok (cb_out (ExecuteRequest e cb reg))
                   (reg_out (ExecuteRequest e cb reg)))
              = Rejected st ''Request canceled by user'') \<and>
         (\<forall>c r t. fst (progress_callback c r t) \<noteq> 0 \<longrightarrow>
            errorMsg (params (fst (snd (progress_callback c r t)))) = ''Request canceled by user'') \<and>
         (\<forall>se p r. errorMsg (capture_failure se p r) =
            (if errorMsg p = [] then se (res r) else errorMsg p))"
proof -
  from ExecuteRequest_started [OF started]
  have o: "opts = configure (params cb)"
    and run: "ExecuteRequest e cb reg =
       capture e (params cb) (curl_easy_perform (configure (params cb)) e cb reg)" by simp_all
  define r where "r = curl_easy_perform opts e cb reg"
  define outcome where "outcome = fst (CompleteCB napi_ok (cb_out (ExecuteRequest e cb reg))
                   (reg_out (ExecuteRequest e cb reg)))"
  have rej: "outcome =
     Rejected (if res r = CURLE_HTTP_RETURNED_ERROR then response_code r else res r)
       ''Request canceled by user''" if "stopped r \<noteq> Uninterrupted"
    using interrupted_rejects [OF run] that by (simp add: r_def o outcome_def)
  note pr = perform_res [of opts e cb reg, folded r_def]
  have a: "stopped r = InFlight \<longleftrightarrow> fst (drive (\<not> NOPROGRESS opts) (events e) cb reg [])"
    by (simp add: r_def perform_in_flight_iff)
  have b: "stopped r = InFlight \<longrightarrow> outcome = Rejected 42 ''Request canceled by user''"
    using rej pr
    by (auto simp: CURLE_ABORTED_BY_CALLBACK_def CURLE_HTTP_RETURNED_ERROR_def)
  have c: "stopped r = AtClose \<and> transfer_code opts (fin e) = CURLE_OK \<longrightarrow>
       outcome = Rejected 42 ''Request canceled by user''"
    using rej pr
    by (auto simp: CURLE_ABORTED_BY_CALLBACK_def CURLE_HTTP_RETURNED_ERROR_def)
  have d: "\<forall>c. stopped r = AtClose \<and> fin e = TransportFailure c \<and> c \<noteq> CURLE_OK \<and>
       c \<noteq> CURLE_HTTP_RETURNED_ERROR \<longrightarrow> outcome = Rejected c ''Request canceled by user''"
    using rej pr by (auto simp: transfer_code_def)
  have f: "\<forall>st hs bd. stopped r = AtClose \<and> fin e = HttpExchange st hs bd \<and>
       FAILONERROR opts \<and> 400 \<le> st \<longrightarrow> outcome = Rejected st ''Request canceled by user''"
    using rej pr
    by (auto simp: transfer_code_def delivered_def CURLE_OK_def CURLE_HTTP_RETURNED_ERROR_def)
  have hook: "\<forall>c r t. fst (progress_callback c r t) \<noteq> 0 \<longrightarrow>
            errorMsg (params (fst (snd (progress_callback c r t)))) = ''Request canceled by user''"
  proof (intro allI impI)
    fix c :: RequestCallbackData and r :: registry and t
    assume nz: "fst (progress_callback c r t) \<noteq> 0"
    obtain rc c' r' new where pc: "progress_callback c r t = (rc, c', r', new)"
      by (cases "progress_callback c r t")
    with nz have "rc \<noteq> 0" by simp
    from progress_callback_abort [OF pc this] pc
    show "errorMsg (params (fst (snd (progress_callback c r t)))) = ''Request canceled by user''"
      by simp
  qed
  have keep: "\<forall>se p r. errorMsg (capture_failure se p r) =
            (if errorMsg p = [] then se (res r) else errorMsg p)"
    by (simp add: capture_failure_def Let_def)
  from a b c d f hook keep show ?thesis
    unfolding r_def outcome_def by (intro conjI) assumption+
qed

theorem cancel_message_and_code_witness:
  "fst (CompleteCB napi_ok
     (cb_out (ExecuteRequest
        ((serving [CancelCall [JsNumber 7]] (TransportFailure 28))
           \<lparr>closing := Some \<lparr>now = 16000000000, dltotal = 0, dlnow = 0, ultotal = 0, ulnow = 0\<rparr>\<rparr>)
        (fst (Request (plain_get\<lparr>opt_requestID := JsNumber 7\<rparr>) Map.empty Map.empty))
        (snd (Request (plain_get\<lparr>opt_requestID := JsNumber 7\<rparr>) Map.empty Map.empty))))
     (reg_out (ExecuteRequest
        ((serving [CancelCall [JsNumber 7]] (TransportFailure 28))
           \<lparr>closing := Some \<lparr>now = 16000000000, dltotal = 0, dlnow = 0, ultotal = 0, ulnow = 0\<rparr>\<rparr>)
        (fst (Request (plain_get\<lparr>opt_requestID := JsNumber 7\<rparr>) Map.empty Map.empty))
        (snd (Request (plain_get\<lparr>opt_requestID := JsNumber 7\<rparr>) Map.empty Map.empty)))))
   = Rejected 28 ''Request canceled by user''"
  using cancel_message_and_code
    [of "(serving [CancelCall [JsNumber 7]] (TransportFailure 28))
           \<lparr>closing := Some \<lparr>now = 16000000000, dltotal = 0, dlnow = 0, ultotal = 0, ulnow = 0\<rparr>\<rparr>"
        "fst (Request (plain_get\<lparr>opt_requestID := JsNumber 7\<rparr>) Map.empty Map.empty)"
        "snd (Request (plain_get\<lparr>opt_requestID := JsNumber 7\<rparr>) Map.empty Map.empty)"
        "configure (params (fst (Request (plain_get\<lparr>opt_requestID := JsNumber 7\<rparr>)
           Map.empty Map.empty)))"]
  by (simp add: model_defs)

section \<open>HTTP status and response body\<close>

text \<open>
  C9. A request without download path, whose exchange the transport completes with status
  \<open>st\<close> and which is not cancelled, resolves with \<open>responseCode = st\<close>, whatever the
  status. The fail-on-error option is set exactly for requests with a download path, and
  the transport's HTTP-returned-error code occurs after a completed exchange only for such
  a request (with a status of 400 or more, which then becomes the error code).
\<close>

theorem status_resolves_without_download:
  assumes nd: "opt_downloadFilePath opts = None \<or> opt_downloadFilePath opts = Some []"
    and init: "curl_init_ok e" and up: "upload_open_ok e"
    and f: "fin e = HttpExchange st hs bd"
    and quiet: "\<forall>a. CancelCall a \<notin> set (events e)"
  shows "(\<exists>resp. fst (request_lifecycle opts fs e reg) = Resolved resp \<and> resp_code resp = st) \<and>
         (\<forall>cb r os. session (ExecuteRequest e cb r) = Some os \<longrightarrow>
            (FAILONERROR os \<longleftrightarrow> downloadFilePath (params cb) \<noteq> [])) \<and>
         (\<forall>cb r. curl_res (ExecuteRequest e cb r) = Some CURLE_HTTP_RETURNED_ERROR \<longrightarrow>
            downloadFilePath (params cb) \<noteq> [] \<and> 400 \<le> st \<and>
            responseCode (params (cb_out (ExecuteRequest e cb r))) = st)"
proof -
  obtain cb reg1 where R: "Request opts fs reg = (cb, reg1)" by (cases "Request opts fs reg")
  from Request_result [OF R] nd
  have q: "downloadFilePath (params cb) = []" "errorMsg (params cb) = []"
    "requestId (params cb) = 0 \<or> reg1 (requestId (params cb)) \<noteq> Some True"
    by (auto simp: c_string_def napi_get_value_string_utf8_def split: option.splits)
  have run: "ExecuteRequest e cb reg1 =
       capture e (params cb) (curl_easy_perform (configure (params cb)) e cb reg1)"
    by (rule ExecuteRequest_runs) (simp_all add: init up q)
  define r where "r = curl_easy_perform (configure (params cb)) e cb reg1"
  have nf: "\<not> FAILONERROR (configure (params cb))" by (simp add: FAILONERROR_configure q)
  from perform_undisturbed [of e cb reg1 "configure (params cb)"] quiet q(3)
  have u: "stopped r = Uninterrupted" by (simp add: r_def)
  from perform_res [of "configure (params cb)" e cb reg1] u nf
  have p: "res r = CURLE_OK" "response_code r = st"
    by (simp_all add: r_def transfer_code_def delivered_def f)
  from perform_outcome [of "configure (params cb)" e cb reg1] u q
  have em: "errorMsg (params (cb_after r)) = []" by (simp add: r_def)
  have first: "\<exists>resp. fst (request_lifecycle opts fs e reg) = Resolved resp \<and> resp_code resp = st"
    by (simp add: request_lifecycle_def R run r_def [symmetric] p capture_def
        capture_success_def CompleteCB_def em Let_def napi_ok_def split: prod.splits)
  have second: "\<forall>cb r os. session (ExecuteRequest e cb r) = Some os \<longrightarrow>
            (FAILONERROR os \<longleftrightarrow> downloadFilePath (params cb) \<noteq> [])"
    using ExecuteRequest_started FAILONERROR_configure by blast
  have third: "\<forall>cb r. curl_res (ExecuteRequest e cb r) = Some CURLE_HTTP_RETURNED_ERROR \<longrightarrow>
            downloadFilePath (params cb) \<noteq> [] \<and> 400 \<le> st \<and>
            responseCode (params (cb_out (ExecuteRequest e cb r))) = st"
  proof (intro allI impI)
    fix c :: RequestCallbackData and r :: registry
    assume a: "curl_res (ExecuteRequest e c r) = Some CURLE_HTTP_RETURNED_ERROR"
    then have "session (ExecuteRequest e c r) = Some (configure (params c))"
      by (auto simp: ExecuteRequest_def early_exit_def capture_def split: if_splits)
    from ExecuteRequest_started [OF this]
    have run': "ExecuteRequest e c r =
       capture e (params c) (curl_easy_perform (configure (params c)) e c r)" by simp
    with a have "res (curl_easy_perform (configure (params c)) e c r) = CURLE_HTTP_RETURNED_ERROR"
      by (simp add: capture_def)
    from status_error_needs_failonerror [OF f this] this
    show "downloadFilePath (params c) \<noteq> [] \<and> 400 \<le> st \<and>
            responseCode (params (cb_out (ExecuteRequest e c r))) = st"
      by (simp add: FAILONERROR_configure run' capture_def capture_failure_def Let_def
          CURLE_OK_def CURLE_HTTP_RETURNED_ERROR_def)
  qed
  from first second third show ?thesis by blast
qed

theorem status_resolves_without_download_witness:
  "fst (request_lifecycle plain_get Map.empty (serving [] (HttpExchange 404 [] ''not found''))
          Map.empty)
     = Resolved \<lparr>resp_code = 404, resp_headers = Map.empty, resp_body = Text ''not found''\<rparr>"
  using status_resolves_without_download
    [of plain_get "serving [] (HttpExchange 404 [] ''not found'')" 404 "[]" "''not found''"
        Map.empty Map.empty]
  by (simp add: model_defs ParseHeaders_def)

text \<open>
  C4, as stated, fails: a response whose header line reads \<open>content-type: image/png\<close>,
  with the name in lower case, resolves with a text body.
\<close>

theorem header_name_case_counterexample:
  "request_lifecycle plain_get Map.empty
     (serving [] (HttpExchange 200
        (http_lines [''HTTP/1.1 200 OK'', ''content-type: image/png'', []])
        ''PNG''))
     Map.empty
   = (Resolved \<lparr>resp_code = 200, resp_headers = [''content-type'' \<mapsto> ''image/png''],
                 resp_body = Text ''PNG''\<rparr>, Map.empty, [])"
  by (simp add: model_defs ParseHeaders_def parse_line_def trim_def isspace_def)

text \<open>
  C4, amended. For a request that resolves after an exchange whose header block consists of
  the lines \<open>ls\<close>: the headers returned map a name to the trimmed value of the last line
  with a colon whose trimmed text before the first colon is that name, byte for byte. The
  body is binary exactly when there is such an entry under the name \<open>Content-Type\<close> in
  this very spelling, its value contains "application/octet-stream" or "image/", and no
  download path is set; otherwise it is text. Without download path the body carries the
  bytes received; with a download path it is the text "download finished". (The
  transport's error descriptions are never empty.)
\<close>

theorem body_decoding:
  assumes resolved: "request_lifecycle opts fs e reg = (Resolved resp, reg', out)"
    and se: "\<forall>c. curl_easy_strerror e c \<noteq> []"
    and ex: "fin e = HttpExchange st (header_block_of ls) bd"
    and ln: "\<forall>l \<in> set ls. CHR 0x0A \<notin> set l"
  shows "resp_headers resp =
           (\<lambda>k. case find (\<lambda>l. CHR '':'' \<in> set l \<and> header_name l = k) (rev ls) of
                   None \<Rightarrow> None | Some l \<Rightarrow> Some (header_value l)) \<and>
         ((\<exists>bytes. resp_body resp = ArrayBuffer bytes) \<longleftrightarrow>
            (\<exists>l. find (\<lambda>l. CHR '':'' \<in> set l \<and> header_name l = ''Content-Type'') (rev ls) = Some l \<and>
               (found_in ''application/octet-stream'' (header_value l) \<or>
                found_in ''image/'' (header_value l))) \<and>
            downloadFilePath (params (fst (Request opts fs reg))) = []) \<and>
         ((\<exists>txt. resp_body resp = Text txt) \<longleftrightarrow>
            \<not> ((\<exists>l. find (\<lambda>l. CHR '':'' \<in> set l \<and> header_name l = ''Content-Type'') (rev ls) = Some l \<and>
               (found_in ''application/octet-stream'' (header_value l) \<or>
                found_in ''image/'' (header_value l))) \<and>
            downloadFilePath (params (fst (Request opts fs reg))) = [])) \<and>
         (downloadFilePath (params (fst (Request opts fs reg))) = [] \<longrightarrow>
            resp_body resp = ArrayBuffer bd \<or> resp_body resp = Text bd) \<and>
         (downloadFilePath (params (fst (Request opts fs reg))) \<noteq> [] \<longrightarrow>
            resp_body resp = Text ''download finished'')"
proof -
  define cb where "cb = fst (Request opts fs reg)"
  define reg1 where "reg1 = snd (Request opts fs reg)"
  have R: "Request opts fs reg = (cb, reg1)" by (simp add: cb_def reg1_def)
  define x where "x = ExecuteRequest e cb reg1"
  from resolved have C: "fst (CompleteCB napi_ok (cb_out x) (reg_out x)) = Resolved resp"
    by (simp add: request_lifecycle_def R x_def Let_def split: prod.splits)
  then have em: "errorMsg (params (cb_out x)) = []"
    by (simp add: CompleteCB_def ResponseErrorCB_def Let_def napi_ok_def split: if_splits)
  from C em have resp: "resp =
     \<lparr>resp_code = responseCode (params (cb_out x)),
      resp_headers = ParseHeaders (responseHeaders (params (cb_out x))),
      resp_body = response_body (params (cb_out x))
                    (ParseHeaders (responseHeaders (params (cb_out x))))\<rparr>"
    by (simp add: CompleteCB_def Let_def napi_ok_def)
  from ExecuteRequest_clean [of e cb reg1 st "header_block_of ls" bd] em se ex
  have k: "downloadFilePath (params (cb_out x)) = downloadFilePath (params cb)"
    "responseHeaders (params (cb_out x)) = header_block_of ls"
    "response (params (cb_out x)) =
       (if downloadFilePath (params cb) \<noteq> [] then ''download finished'' else bd)"
    by (simp_all add: x_def)
  have h: "resp_headers resp =
           (\<lambda>k. case find (\<lambda>l. CHR '':'' \<in> set l \<and> header_name l = k) (rev ls) of
                   None \<Rightarrow> None | Some l \<Rightarrow> Some (header_value l))"
    by (rule ext) (simp add: resp k(2) ParseHeaders_block [OF ln])
  define bin where "bin \<longleftrightarrow>
     (\<exists>l. find (\<lambda>l. CHR '':'' \<in> set l \<and> header_name l = ''Content-Type'') (rev ls) = Some l \<and>
        (found_in ''application/octet-stream'' (header_value l) \<or>
         found_in ''image/'' (header_value l)))"
  have ct: "(\<exists>ct. resp_headers resp ''Content-Type'' = Some ct \<and>
            (found_in ''application/octet-stream'' ct \<or> found_in ''image/'' ct)) \<longleftrightarrow> bin"
    unfolding h bin_def by (auto split: option.splits)
  have b: "resp_body resp =
     (if bin \<and> downloadFilePath (params cb) = []
      then ArrayBuffer (response (params (cb_out x))) else Text (response (params (cb_out x))))"
    using ct by (simp add: resp response_body_cases k(1))
  from h b k(3) show ?thesis
    unfolding bin_def cb_def [symmetric] by auto
qed

theorem body_decoding_witness:
  "request_lifecycle plain_get Map.empty
     (serving [] (HttpExchange 200
        (header_block_of [''HTTP/1.1 200 OK'', ''Server: demo'', ''Content-Type: image/png'', []])
        ''PNG''))
     Map.empty
   = (Resolved \<lparr>resp_code = 200,
                 resp_headers = [''Server'' \<mapsto> ''demo'', ''Content-Type'' \<mapsto> ''image/png''],
                 resp_body = ArrayBuffer ''PNG''\<rparr>, Map.empty, [])"
proof -
  have r: "request_lifecycle plain_get Map.empty
     (serving [] (HttpExchange 200
        (header_block_of [''HTTP/1.1 200 OK'', ''Server: demo'', ''Content-Type: image/png'', []])
        ''PNG''))
     Map.empty
   = (Resolved \<lparr>resp_code = 200,
                 resp_headers = ParseHeaders (header_block_of
                   [''HTTP/1.1 200 OK'', ''Server: demo'', ''Content-Type: image/png'', []]),
                 resp_body = ArrayBuffer ''PNG''\<rparr>, Map.empty, [])"
    by (simp add: model_defs ParseHeaders_def parse_line_def trim_def isspace_def)
  from body_decoding
    [of plain_get Map.empty
        "serving [] (HttpExchange 200
          (header_block_of [''HTTP/1.1 200 OK'', ''Server: demo'', ''Content-Type: image/png'', []])
          ''PNG'')"
        Map.empty _ Map.empty "[]" 200
        "[''HTTP/1.1 200 OK'', ''Server: demo'', ''Content-Type: image/png'', []]" "''PNG''",
     OF r]
  have "ParseHeaders (header_block_of
          [''HTTP/1.1 200 OK'', ''Server: demo'', ''Content-Type: image/png'', []]) =
        (\<lambda>k. case find (\<lambda>l. CHR '':'' \<in> set l \<and> header_name l = k)
                 (rev [''HTTP/1.1 200 OK'', ''Server: demo'', ''Content-Type: image/png'', []]) of
                None \<Rightarrow> None | Some l \<Rightarrow> Some (header_value l))"
    by (simp add: serving_def)
  also have "\<dots> = [''Server'' \<mapsto> ''demo'', ''Content-Type'' \<mapsto> ''image/png'']"
    by (rule ext) (simp add: header_name_def header_value_def trim_def isspace_def)
  finally show ?thesis using r by simp
qed

section \<open>Progress throttling\<close>

text \<open>
  C2, as stated, fails: a request with a non-zero id and a progress callback but no download
  path gets ticks whose download counters satisfy the three conditions (total positive,
  current different from the last reported count, current equal to total and more than a
  second elapsed), and nothing is forwarded.
\<close>

theorem throttle_conditions_counterexample:
  "0 < dltotal \<lparr>now = 5000000000, dltotal = 100, dlnow = 100, ultotal = 0, ulnow = 0\<rparr> \<and>
   dlnow \<lparr>now = 5000000000, dltotal = 100, dlnow = 100, ultotal = 0, ulnow = 0\<rparr> \<noteq>
     lastProgress (params (fst (Request
       (plain_get\<lparr>opt_requestID := JsNumber 7, opt_onProgress := True\<rparr>) Map.empty Map.empty))) \<and>
   dlnow \<lparr>now = 5000000000, dltotal = 100, dlnow = 100, ultotal = 0, ulnow = 0\<rparr> =
     dltotal \<lparr>now = 5000000000, dltotal = 100, dlnow = 100, ultotal = 0, ulnow = 0\<rparr> \<and>
   1000000000 \<le> now \<lparr>now = 5000000000, dltotal = 100, dlnow = 100, ultotal = 0, ulnow = 0\<rparr> -
     lastTime (params (fst (Request
       (plain_get\<lparr>opt_requestID := JsNumber 7, opt_onProgress := True\<rparr>) Map.empty Map.empty))) \<and>
   tsfn (fst (Request
       (plain_get\<lparr>opt_requestID := JsNumber 7, opt_onProgress := True\<rparr>) Map.empty Map.empty)) \<and>
   snd (snd (request_lifecycle
       (plain_get\<lparr>opt_requestID := JsNumber 7, opt_onProgress := True\<rparr>) Map.empty
       (serving [Tick \<lparr>now = 5000000000, dltotal = 100, dlnow = 100, ultotal = 0, ulnow = 0\<rparr>]
          (HttpExchange 200 [] ''body'')) Map.empty)) = []"
  by (simp add: model_defs)

text \<open>
  C2, amended. A sample of a direction is forwarded if and only if that direction's file
  transfer is active (download path set; upload path or form fields set), the progress
  callback is registered, the total is positive, the current count differs from the stored
  last reported count, and a second has elapsed since the stored time or the current count
  equals the total. On emission the stored count and time become those of the sample; the
  download sample carries the resume offset. Without emission the state is unchanged. A
  tick forwards the upload sample, then the download sample decided on the state the upload
  block left.
\<close>

theorem progress_emission_rule:
  "(snd (report_download cb t) \<noteq> [] \<longleftrightarrow>
      downloadFilePath (params cb) \<noteq> [] \<and> tsfn cb \<and> 0 < dltotal t \<and>
      dlnow t \<noteq> lastProgress (params cb) \<and>
      (1000000000 \<le> now t - lastTime (params cb) \<or> dlnow t = dltotal t)) \<and>
   (snd (report_upload cb t) \<noteq> [] \<longleftrightarrow>
      (uploadFilePath (params cb) \<noteq> [] \<or> formData (params cb) \<noteq> []) \<and> tsfn cb \<and>
      0 < ultotal t \<and> ulnow t \<noteq> lastProgress (params cb) \<and>
      (1000000000 \<le> now t - lastTime (params cb) \<or> ulnow t = ultotal t)) \<and>
   (snd (report_download cb t) \<noteq> [] \<longrightarrow>
      snd (report_download cb t) =
        [\<lparr>currentSize = int64_t (resumeFromOffset (params cb) + dlnow t),
          totalSize = int64_t (resumeFromOffset (params cb) + dltotal t)\<rparr>] \<and>
      lastProgress (params (fst (report_download cb t))) = dlnow t \<and>
      lastTime (params (fst (report_download cb t))) = now t) \<and>
   (snd (report_upload cb t) \<noteq> [] \<longrightarrow>
      snd (report_upload cb t) = [\<lparr>currentSize = ulnow t, totalSize = ultotal t\<rparr>] \<and>
      lastProgress (params (fst (report_upload cb t))) = ulnow t \<and>
      lastTime (params (fst (report_upload cb t))) = now t) \<and>
   (snd (report_download cb t) = [] \<longrightarrow> fst (report_download cb t) = cb) \<and>
   (snd (report_upload cb t) = [] \<longrightarrow> fst (report_upload cb t) = cb) \<and>
   snd (snd (snd (progress_callback cb reg t))) =
     snd (report_upload cb t) @ snd (report_download (fst (report_upload cb t)) t)"
proof -
  have d: "download_due cb t \<longleftrightarrow>
      downloadFilePath (params cb) \<noteq> [] \<and> tsfn cb \<and> 0 < dltotal t \<and>
      dlnow t \<noteq> lastProgress (params cb) \<and>
      (1000000000 \<le> now t - lastTime (params cb) \<or> dlnow t = dltotal t)"
    by (auto simp: download_due_def elapsed_one_second)
  have u: "upload_due cb t \<longleftrightarrow>
      (uploadFilePath (params cb) \<noteq> [] \<or> formData (params cb) \<noteq> []) \<and> tsfn cb \<and>
      0 < ultotal t \<and> ulnow t \<noteq> lastProgress (params cb) \<and>
      (1000000000 \<le> now t - lastTime (params cb) \<or> ulnow t = ultotal t)"
    by (auto simp: upload_due_def elapsed_one_second)
  have rd: "snd (report_download cb t) \<noteq> [] \<longleftrightarrow> download_due cb t"
    by (simp add: report_download_def)
  have ru: "snd (report_upload cb t) \<noteq> [] \<longleftrightarrow> upload_due cb t"
    by (simp add: report_upload_def)
  have ed: "snd (report_download cb t) \<noteq> [] \<longrightarrow>
      snd (report_download cb t) =
        [\<lparr>currentSize = int64_t (resumeFromOffset (params cb) + dlnow t),
          totalSize = int64_t (resumeFromOffset (params cb) + dltotal t)\<rparr>] \<and>
      lastProgress (params (fst (report_download cb t))) = dlnow t \<and>
      lastTime (params (fst (report_download cb t))) = now t"
    by (simp add: report_download_def)
  have eu: "snd (report_upload cb t) \<noteq> [] \<longrightarrow>
      snd (report_upload cb t) = [\<lparr>currentSize = ulnow t, totalSize = ultotal t\<rparr>] \<and>
      lastProgress (params (fst (report_upload cb t))) = ulnow t \<and>
      lastTime (params (fst (report_upload cb t))) = now t"
    by (simp add: report_upload_def)
  have kd: "snd (report_download cb t) = [] \<longrightarrow> fst (report_download cb t) = cb"
    by (simp add: report_download_def)
  have ku: "snd (report_upload cb t) = [] \<longrightarrow> fst (report_upload cb t) = cb"
    by (simp add: report_upload_def)
  from d u rd ru ed eu kd ku progress_callback_samples [of cb reg t] show ?thesis
    by (simp only:)
qed

theorem progress_emission_rule_witness:
  "snd (report_download
     (fst (Request (plain_get\<lparr>opt_downloadFilePath := Some ''/data/f.bin'', opt_onProgress := True\<rparr>)
        Map.empty Map.empty))
     \<lparr>now = 5000000000, dltotal = 100, dlnow = 40, ultotal = 0, ulnow = 0\<rparr>)
   = [\<lparr>currentSize = 40, totalSize = 100\<rparr>]"
  using progress_emission_rule
    [of "fst (Request (plain_get\<lparr>opt_downloadFilePath := Some ''/data/f.bin'', opt_onProgress := True\<rparr>)
        Map.empty Map.empty)"
        "\<lparr>now = 5000000000, dltotal = 100, dlnow = 40, ultotal = 0, ulnow = 0\<rparr>" Map.empty]
  by (simp add: model_defs)

section \<open>Order within a tick\<close>

text \<open>
  C5, as stated, fails: a download request is cancelled before its first tick; that tick
  still forwards the sample that is due, and only then interrupts the transfer.
\<close>

theorem poll_first_counterexample:
  "request_lifecycle
     (plain_get\<lparr>opt_requestID := JsNumber 5, opt_downloadFilePath := Some ''/data/f.bin'',
                opt_onProgress := True\<rparr>)
     Map.empty
     (serving [CancelCall [JsNumber 5],
               Tick \<lparr>now = 2000000000, dltotal = 100, dlnow = 50, ultotal = 0, ulnow = 0\<rparr>]
              (HttpExchange 200 [] []))
     Map.empty
   = (Rejected 42 ''Request canceled by user'', Map.empty,
      [\<lparr>currentSize = 50, totalSize = 100\<rparr>])"
  by (simp add: model_defs)

text \<open>
  C5, amended. In every tick the progress reports run first and the cancellation check
  last: the samples a tick forwards do not depend on the registry, the hook returns non-zero
  exactly when the request's id is non-zero and its flag is true, and the transfer then
  stops at this tick, having forwarded the samples of the earlier ticks and of this one and
  none of a later tick.
\<close>

theorem poll_runs_last:
  "snd (snd (snd (progress_callback cb reg t))) =
     snd (snd (snd (progress_callback cb reg' t))) \<and>
   (fst (progress_callback cb reg t) \<noteq> 0 \<longleftrightarrow>
      requestId (params cb) \<noteq> 0 \<and> reg (requestId (params cb)) = Some True) \<and>
   (fst (progress_callback cb reg t) \<noteq> 0 \<longrightarrow>
      fst (drive True (Tick t # es) cb reg out) \<and>
      snd (snd (snd (drive True (Tick t # es) cb reg out))) =
        out @ snd (snd (snd (progress_callback cb reg t))))"
proof -
  have a: "snd (snd (snd (progress_callback cb reg t))) =
     snd (snd (snd (progress_callback cb reg' t)))"
    by (simp add: progress_callback_samples)
  have b: "fst (progress_callback cb reg t) \<noteq> 0 \<longleftrightarrow>
      requestId (params cb) \<noteq> 0 \<and> reg (requestId (params cb)) = Some True"
    by (simp add: progress_callback_rc)
  have c: "fst (progress_callback cb reg t) \<noteq> 0 \<longrightarrow>
      fst (drive True (Tick t # es) cb reg out) \<and>
      snd (snd (snd (drive True (Tick t # es) cb reg out))) =
        out @ snd (snd (snd (progress_callback cb reg t)))"
    by (cases "progress_callback cb reg t") simp
  from a b c show ?thesis by (simp only:)
qed

theorem poll_runs_last_witness:
  "snd (snd (snd (drive True
     [Tick \<lparr>now = 2000000000, dltotal = 100, dlnow = 50, ultotal = 0, ulnow = 0\<rparr>,
      Tick \<lparr>now = 4000000000, dltotal = 100, dlnow = 100, ultotal = 0, ulnow = 0\<rparr>]
     (fst (Request (plain_get\<lparr>opt_requestID := JsNumber 5,
        opt_downloadFilePath := Some ''/data/f.bin'', opt_onProgress := True\<rparr>)
        Map.empty Map.empty))
     [5 \<mapsto> True] [])))
   = [\<lparr>currentSize = 50, totalSize = 100\<rparr>]"
  using poll_runs_last
    [of "fst (Request (plain_get\<lparr>opt_requestID := JsNumber 5,
        opt_downloadFilePath := Some ''/data/f.bin'', opt_onProgress := True\<rparr>)
        Map.empty Map.empty)"
        "[5 \<mapsto> True]"
        "\<lparr>now = 2000000000, dltotal = 100, dlnow = 50, ultotal = 0, ulnow = 0\<rparr>"
        Map.empty
        "[Tick \<lparr>now = 4000000000, dltotal = 100, dlnow = 100, ultotal = 0, ulnow = 0\<rparr>]"
        "[]"]
  by (simp add: model_defs)

section \<open>One throttling state for both directions\<close>

text \<open>
  C7, as stated, fails: for a request with an upload path and a download path, a tick whose
  download sample is due on the state found at its start forwards the upload sample only,
  because the upload block has just rewritten the state.
\<close>

theorem separate_throttle_state_counterexample:
  "download_due
     (fst (Request (plain_get\<lparr>opt_downloadFilePath := Some ''/data/d.bin'',
        opt_uploadFilePath := Some ''/data/u.bin'', opt_onProgress := True\<rparr>)
        Map.empty Map.empty))
     \<lparr>now = 5000000000, dltotal = 100, dlnow = 30, ultotal = 100, ulnow = 40\<rparr> \<and>
   snd (snd (request_lifecycle
     (plain_get\<lparr>opt_downloadFilePath := Some ''/data/d.bin'',
        opt_uploadFilePath := Some ''/data/u.bin'', opt_onProgress := True\<rparr>)
     Map.empty
     (serving [Tick \<lparr>now = 5000000000, dltotal = 100, dlnow = 30, ultotal = 100, ulnow = 40\<rparr>]
        (HttpExchange 200 [] []))
     Map.empty))
   = [\<lparr>currentSize = 40, totalSize = 100\<rparr>]"
  by (simp add: model_defs)

text \<open>
  C7, amended. Both directions use the single pair \<open>lastProgress\<close>, \<open>lastTime\<close> of
  the request: an emission in either direction writes both fields, the upload block runs
  first, and after an upload emission the download check of the same tick passes only for
  a final sample (\<open>dlnow = dltotal\<close>) whose count differs from \<open>ulnow\<close>.
\<close>

theorem shared_throttle_state:
  "(upload_due cb t \<longrightarrow>
      lastProgress (params (fst (report_upload cb t))) = ulnow t \<and>
      lastTime (params (fst (report_upload cb t))) = now t \<and>
      (download_due (fst (report_upload cb t)) t \<longleftrightarrow>
         downloadFilePath (params cb) \<noteq> [] \<and> tsfn cb \<and> 0 < dltotal t \<and>
         ulnow t \<noteq> dlnow t \<and> dlnow t = dltotal t)) \<and>
   (download_due cb t \<longrightarrow>
      lastProgress (params (fst (report_download cb t))) = dlnow t \<and>
      lastTime (params (fst (report_download cb t))) = now t) \<and>
   snd (snd (snd (progress_callback cb reg t))) =
     snd (report_upload cb t) @ snd (report_download (fst (report_upload cb t)) t)"
proof -
  have a: "upload_due cb t \<longrightarrow>
      lastProgress (params (fst (report_upload cb t))) = ulnow t \<and>
      lastTime (params (fst (report_upload cb t))) = now t \<and>
      (download_due (fst (report_upload cb t)) t \<longleftrightarrow>
         downloadFilePath (params cb) \<noteq> [] \<and> tsfn cb \<and> 0 < dltotal t \<and>
         ulnow t \<noteq> dlnow t \<and> dlnow t = dltotal t)"
    by (auto simp: report_upload_def download_due_def elapsed_one_second)
  have b: "download_due cb t \<longrightarrow>
      lastProgress (params (fst (report_download cb t))) = dlnow t \<and>
      lastTime (params (fst (report_download cb t))) = now t"
    by (simp add: report_download_def)
  from a b progress_callback_samples [of cb reg t] show ?thesis by (simp only:)
qed

theorem shared_throttle_state_witness:
  "\<not> download_due
     (fst (report_upload
        (fst (Request (plain_get\<lparr>opt_downloadFilePath := Some ''/data/d.bin'',
           opt_uploadFilePath := Some ''/data/u.bin'', opt_onProgress := True\<rparr>)
           Map.empty Map.empty))
        \<lparr>now = 5000000000, dltotal = 100, dlnow = 30, ultotal = 100, ulnow = 40\<rparr>))
     \<lparr>now = 5000000000, dltotal = 100, dlnow = 30, ultotal = 100, ulnow = 40\<rparr>"
  using shared_throttle_state
    [of "fst (Request (plain_get\<lparr>opt_downloadFilePath := Some ''/data/d.bin'',
           opt_uploadFilePath := Some ''/data/u.bin'', opt_onProgress := True\<rparr>)
           Map.empty Map.empty)"
        "\<lparr>now = 5000000000, dltotal = 100, dlnow = 30, ultotal = 100, ulnow = 40\<rparr>"
        Map.empty]
  by (simp add: model_defs)

section \<open>Resumed downloads\<close>

text \<open>
  C3. For a request whose download path, as \<open>Request\<close> stores it, names a file that passes
  the existence test of \<open>Request\<close> and has size \<open>N > 0\<close>: \<open>Request\<close> records \<open>N\<close> as
  \<open>resumeFromOffset\<close>; whenever the transfer is reached, the range option is the decimal
  rendering of \<open>N\<close> followed by "-" and the file has been opened with the append flag. When
  the request does not upload as well (no upload path, no form fields: the data model
  does not combine upload and download in one call), every sample forwarded carries the
  download counters of an invocation of the hook, each increased by \<open>N\<close> in the 64-bit
  arithmetic of the source, which is the exact sum as long as that stays below \<open>2^63\<close>.
\<close>

theorem resume_existing_download:
  assumes given: "opt_downloadFilePath opts = Some given"
    and path: "c_string (napi_get_value_string_utf8 1024 given) = path" "path \<noteq> []"
    and size: "fs path = Some N" "0 < N"
  shows "downloadFilePath (params (fst (Request opts fs reg))) = path \<and>
    resumeFromOffset (params (fst (Request opts fs reg))) = N \<and>
    (\<forall>e os. session (ExecuteRequest e (fst (Request opts fs reg)) (snd (Request opts fs reg)))
               = Some os \<longrightarrow>
       RANGE os = Some (dec_int N @ ''-'') \<and>
       opened_with (ExecuteRequest e (fst (Request opts fs reg)) (snd (Request opts fs reg)))
         = Some {ios_out, ios_binary, ios_app}) \<and>
    (\<forall>e. uploadFilePath (params (fst (Request opts fs reg))) = [] \<and>
         formData (params (fst (Request opts fs reg))) = [] \<longrightarrow>
       set (snd (snd (request_lifecycle opts fs e reg))) \<subseteq>
       {\<lparr>currentSize = int64_t (N + dlnow t), totalSize = int64_t (N + dltotal t)\<rparr> | t.
          Tick t \<in> set (events e) \<or> closing e = Some t}) \<and>
    (\<forall>x. 0 \<le> x \<and> N + x < 9223372036854775808 \<longrightarrow> int64_t (N + x) = N + x)"
proof -
  define cb where "cb = fst (Request opts fs reg)"
  define reg1 where "reg1 = snd (Request opts fs reg)"
  have R: "Request opts fs reg = (cb, reg1)" by (simp add: cb_def reg1_def)
  have off: "resumeFromOffset (params cb) = N"
    using given path size
    by (simp add: cb_def Request_unfold parse_upload_simps parse_download_offset)
  have dl: "downloadFilePath (params cb) = path"
    using Request_result [OF R] given path by simp
  have conf: "\<forall>e os. session (ExecuteRequest e cb reg1) = Some os \<longrightarrow>
       RANGE os = Some (dec_int N @ ''-'') \<and>
       opened_with (ExecuteRequest e cb reg1) = Some {ios_out, ios_binary, ios_app}"
  proof (intro allI impI)
    fix e os
    assume s: "session (ExecuteRequest e cb reg1) = Some os"
    from ExecuteRequest_started [OF s]
    have o: "os = configure (params cb)"
      and run: "ExecuteRequest e cb reg1 =
         capture e (params cb) (curl_easy_perform (configure (params cb)) e cb reg1)"
      by simp_all
    have "RANGE (configure (params cb)) = Some (dec_int N @ ''-'')"
      using dl path(2) off size(2)
      by (simp add: configure_def set_download_def set_method_def set_progress_def
          curl_easy_init_def Let_def)
    moreover have "opened_with (ExecuteRequest e cb reg1) = Some {ios_out, ios_binary, ios_app}"
      using dl path(2) off size(2) by (simp add: run capture_def download_mode_def)
    ultimately show "RANGE os = Some (dec_int N @ ''-'') \<and>
       opened_with (ExecuteRequest e cb reg1) = Some {ios_out, ios_binary, ios_app}"
      by (simp add: o)
  qed
  have rep: "snd (snd (request_lifecycle opts fs e reg)) = reported (ExecuteRequest e cb reg1)"
    for e by (simp add: request_lifecycle_def R Let_def split: prod.splits)
  have pure: "\<forall>e. uploadFilePath (params cb) = [] \<and> formData (params cb) = [] \<longrightarrow>
       set (snd (snd (request_lifecycle opts fs e reg))) \<subseteq>
       {\<lparr>currentSize = int64_t (N + dlnow t), totalSize = int64_t (N + dltotal t)\<rparr> | t.
          Tick t \<in> set (events e) \<or> closing e = Some t}"
  proof (intro allI impI)
    fix e
    assume "uploadFilePath (params cb) = [] \<and> formData (params cb) = []"
    with ExecuteRequest_samples [of e cb reg1] off
    show "set (snd (snd (request_lifecycle opts fs e reg))) \<subseteq>
       {\<lparr>currentSize = int64_t (N + dlnow t), totalSize = int64_t (N + dltotal t)\<rparr> | t.
          Tick t \<in> set (events e) \<or> closing e = Some t}"
      unfolding rep by simp
  qed
  have range: "\<forall>x. 0 \<le> x \<and> N + x < 9223372036854775808 \<longrightarrow> int64_t (N + x) = N + x"
    using size(2) by (auto intro: int64_t_id)
  show ?thesis
    using dl off conf pure range unfolding cb_def reg1_def
    by (intro conjI) assumption+
qed

theorem resume_existing_download_witness:
  "session (ExecuteRequest (serving [] (HttpExchange 206 [] []))
     (fst (Request (plain_get\<lparr>opt_downloadFilePath := Some ''/data/f.bin''\<rparr>)
        [''/data/f.bin'' \<mapsto> 4194304] Map.empty))
     (snd (Request (plain_get\<lparr>opt_downloadFilePath := Some ''/data/f.bin''\<rparr>)
        [''/data/f.bin'' \<mapsto> 4194304] Map.empty)))
   = Some \<lparr>NOPROGRESS = False, kind = CURLOPT_HTTPGET, UPLOAD = False,
            RANGE = Some ''4194304-'', FAILONERROR = True, write_to_file = True\<rparr>"
  using resume_existing_download
    [of "plain_get\<lparr>opt_downloadFilePath := Some ''/data/f.bin''\<rparr>" "''/data/f.bin''"
        "''/data/f.bin''" "[''/data/f.bin'' \<mapsto> 4194304]" 4194304 Map.empty]
  by (simp add: model_defs)

section \<open>Request validation\<close>

text \<open>
  C6. A request with the verb PATCH is not rejected: the final \<open>else\<close> of the chain
  selects \<open>CURLOPT_HTTPGET\<close>, the transfer runs and the promise resolves.
\<close>

theorem unsupported_method_runs_as_get:
  "session (ExecuteRequest (serving [] (HttpExchange 200 [] ''ok''))
     (fst (Request (plain_get\<lparr>opt_method := Some ''PATCH''\<rparr>) Map.empty Map.empty))
     (snd (Request (plain_get\<lparr>opt_method := Some ''PATCH''\<rparr>) Map.empty Map.empty)))
   = Some \<lparr>NOPROGRESS = True, kind = CURLOPT_HTTPGET, UPLOAD = False, RANGE = None,
            FAILONERROR = False, write_to_file = False\<rparr> \<and>
   request_lifecycle (plain_get\<lparr>opt_method := Some ''PATCH''\<rparr>) Map.empty
     (serving [] (HttpExchange 200 [] ''ok'')) Map.empty
   = (Resolved \<lparr>resp_code = 200, resp_headers = Map.empty, resp_body = Text ''ok''\<rparr>,
      Map.empty, [])"
  by (simp add: model_defs ParseHeaders_def)

theorem unsupported_method_runs_as_get_witness:
  "fst (request_lifecycle (plain_get\<lparr>opt_method := Some ''PATCH''\<rparr>) Map.empty
     (serving [] (HttpExchange 200 [] ''ok'')) Map.empty)
   = Resolved \<lparr>resp_code = 200, resp_headers = Map.empty, resp_body = Text ''ok''\<rparr>"
  using unsupported_method_runs_as_get by simp

section \<open>Registration\<close>

text \<open>
  C8. A request whose \<open>requestID\<close> is the number 0 is registered under the key 0, and the
  entry is still there when the request has completed, since the clean-up of
  \<open>CompleteCB\<close> skips the id 0.
\<close>

theorem zero_request_id_registered:
  "snd (Request (plain_get\<lparr>opt_requestID := JsNumber 0\<rparr>) Map.empty Map.empty) 0 = Some False \<and>
   requestId (params (fst (Request (plain_get\<lparr>opt_requestID := JsNumber 0\<rparr>)
     Map.empty Map.empty))) = 0 \<and>
   fst (snd (request_lifecycle (plain_get\<lparr>opt_requestID := JsNumber 0\<rparr>) Map.empty
     (serving [] (HttpExchange 200 [] [])) Map.empty)) 0 = Some False"
  by (simp add: model_defs)

theorem zero_request_id_registered_witness:
  "dom (fst (snd (request_lifecycle (plain_get\<lparr>opt_requestID := JsNumber 0\<rparr>) Map.empty
     (serving [] (HttpExchange 200 [] [])) Map.empty))) \<noteq> {}"
  using zero_request_id_registered by auto

end
